theory Spec2Isabelle
  imports Complex_Main "HOL-Library.AList"
begin

section \<open>Values of the forecast arrays\<close>

text \<open>
  The hourly arrays of the forecast (\<^verbatim>\<open>DATA["hourly"][...]\<close>) hold JSON numbers and JSON
  nulls. Python's floats are modelled by the reals: comparisons against the thresholds and
  sums are exact. \<^verbatim>\<open>float(x)\<close> raises TypeError on \<^verbatim>\<open>None\<close>; the model returns
  \<open>None\<close> there, and every \<^verbatim>\<open>try: ... except:\<close> of the source is a case split on it.
\<close>

datatype jval = JNull | JNum real

fun py_float :: "jval \<Rightarrow> real option" where
  "py_float JNull = None"
| "py_float (JNum r) = Some r"

text \<open>\<^verbatim>\<open>try: m = float(x)  except: m = 0.0\<close>\<close>

definition float_or_zero :: "jval \<Rightarrow> real" where
  "float_or_zero x = (case py_float x of Some r \<Rightarrow> r | None \<Rightarrow> 0)"

text \<open>\<^verbatim>\<open>try: x = float(x or 0.0)  except: x = 0.0\<close>: \<^verbatim>\<open>None\<close> and \<^verbatim>\<open>0\<close> are falsy,
  so \<^verbatim>\<open>x or 0.0\<close> is \<^verbatim>\<open>0.0\<close> for them.\<close>

definition float_or_default :: "jval \<Rightarrow> real" where
  "float_or_default x = (case x of JNull \<Rightarrow> 0 | JNum r \<Rightarrow> (if r = 0 then 0 else r))"

section \<open>Thresholds (module constants)\<close>

abbreviation (input) RAWAN_RAIN_MM :: real where "RAWAN_RAIN_MM \<equiv> 6"
abbreviation (input) WASP_RAIN_MM :: real where "WASP_RAIN_MM \<equiv> 2"
abbreviation (input) RAWAN_HUM :: real where "RAWAN_HUM \<equiv> 75"
abbreviation (input) ACC3_RAWAN_MM :: real where "ACC3_RAWAN_MM \<equiv> 15"
abbreviation (input) ACC6_RAWAN_MM :: real where "ACC6_RAWAN_MM \<equiv> 30"
abbreviation (input) WIND_WARN :: real where "WIND_WARN \<equiv> 15"
abbreviation (input) WIND_DANGER :: real where "WIND_DANGER \<equiv> 25"
abbreviation (input) GUST_WARN :: real where "GUST_WARN \<equiv> 30"
abbreviation (input) GUST_DANGER :: real where "GUST_DANGER \<equiv> 45"
abbreviation (input) SCORE_HUMID_TH :: real where "SCORE_HUMID_TH \<equiv> 80"
abbreviation (input) SCORE_TEMP_LOW :: real where "SCORE_TEMP_LOW \<equiv> 27"
abbreviation (input) SCORE_TEMP_HIGH :: real where "SCORE_TEMP_HIGH \<equiv> 34"
abbreviation (input) SCORE_TEMP_DROP :: real where "SCORE_TEMP_DROP \<equiv> 2"
abbreviation (input) SCORE_WIND_MIN :: real where "SCORE_WIND_MIN \<equiv> 10"
abbreviation (input) SCORE_WIND_MAX :: real where "SCORE_WIND_MAX \<equiv> 25"
abbreviation (input) SCORE_GUST_TH :: real where "SCORE_GUST_TH \<equiv> 25"
abbreviation (input) SCORE_UV_TH :: real where "SCORE_UV_TH \<equiv> 7"
abbreviation (input) THRESH_PCT :: real where "THRESH_PCT \<equiv> 8 / 10"
abbreviation (input) DEV_WARN_TH :: real where "DEV_WARN_TH \<equiv> 7 / 10"
abbreviation (input) DEV_DANGER_TH :: real where "DEV_DANGER_TH \<equiv> 1"

section \<open>Classifiers\<close>

datatype rain_cat = NONE | GERIMIS | RINGAN | SEDANG | DERAS

text \<open>\<^verbatim>\<open>classify_rain_mm\<close>.\<close>

definition classify_rain_mm :: "jval \<Rightarrow> rain_cat" where
  "classify_rain_mm mm =
     (let m = float_or_zero mm in
      if m \<le> 1 / 10000 then NONE
      else if m < 1 then GERIMIS
      else if m < 25 / 10 then RINGAN
      else if m < 76 / 10 then SEDANG
      else DERAS)"

datatype sky =
  CERAH | BERAWAN | MENDUNG
  | HUJAN_GERIMIS | HUJAN_RINGAN | HUJAN_SEDANG | HUJAN_DERAS | HUJAN_POTENSIAL

text \<open>The reference rain value \<^verbatim>\<open>ref\<close> of \<^verbatim>\<open>classify_sky\<close>, after the coercions.\<close>

definition sky_ref :: "real \<Rightarrow> real \<Rightarrow> real \<Rightarrow> real" where
  "sky_ref rainmm acc3 acc6 =
     (if rainmm \<ge> 3 / 10 then rainmm
      else if acc3 \<ge> 3 / 10 then acc3
      else if acc6 \<ge> 6 / 10 then acc6
      else 0)"

text \<open>\<^verbatim>\<open>classify_sky\<close>. The hour is \<^verbatim>\<open>Optional[int]\<close>; \<^verbatim>\<open>int(hour)\<close> of an int
  does not raise.\<close>

definition classify_sky ::
  "jval \<Rightarrow> jval \<Rightarrow> jval \<Rightarrow> jval \<Rightarrow> jval \<Rightarrow> jval \<Rightarrow> int option \<Rightarrow> sky" where
  "classify_sky prob0 rainmm0 acc30 acc60 hum0 uv0 hour =
     (let rainmm = float_or_default rainmm0;
          acc3 = float_or_default acc30;
          acc6 = float_or_default acc60;
          prob = float_or_default prob0;
          hum = float_or_default hum0;
          uv = float_or_default uv0;
          ref = sky_ref rainmm acc3 acc6
      in
      if ref > 1 / 10000 then
        (if ref \<ge> 76 / 10 then HUJAN_DERAS
         else if ref \<ge> 25 / 10 then HUJAN_SEDANG
         else if ref \<ge> 1 then HUJAN_RINGAN
         else HUJAN_GERIMIS)
      else if prob \<ge> 60 then HUJAN_POTENSIAL
      else
        (let is_day = (case hour of None \<Rightarrow> False | Some h \<Rightarrow> 6 \<le> h \<and> h \<le> 16) in
         if is_day \<and> (uv \<ge> SCORE_UV_TH \<and> hum < RAWAN_HUM) then CERAH
         else if (60 \<le> hum \<and> hum \<le> 85) \<and> prob < 30 then BERAWAN
         else if hum > RAWAN_HUM \<or> (30 \<le> prob \<and> prob < 60) then MENDUNG
         else BERAWAN))"

section \<open>Time slots and array access\<close>

text \<open>
  A timestamp \<^verbatim>\<open>"YYYY-MM-DDTHH:00"\<close> is represented by its number of hours since a fixed
  midnight, so that \<^verbatim>\<open>int(TIME.split("T")[1][:2])\<close> is that number modulo 24.
  \<^verbatim>\<open>build_times_list\<close> yields the 24 slots from the current hour on.
\<close>

type_synonym slot = nat

definition build_times_list :: "slot \<Rightarrow> slot list" where
  "build_times_list now_dt = map (\<lambda>i. now_dt + i) [0..<24]"

definition hour_of :: "slot \<Rightarrow> int" where
  "hour_of TIME = int (TIME mod 24)"

text \<open>\<^verbatim>\<open>times_jq.index(TIME)\<close>: the first position, \<open>None\<close> for ValueError.\<close>

fun index_of :: "'a list \<Rightarrow> 'a \<Rightarrow> nat option" where
  "index_of [] x = None"
| "index_of (y # ys) x = (if y = x then Some 0 else map_option Suc (index_of ys x))"

text \<open>\<^verbatim>\<open>arr[idx] if idx < len(arr) else 0.0\<close>\<close>

definition at_or_zero :: "jval list \<Rightarrow> nat \<Rightarrow> jval" where
  "at_or_zero arr idx = (if idx < length arr then arr ! idx else JNum 0)"

text \<open>\<^verbatim>\<open>try: v = float(arr[i])  except: pass\<close>: IndexError and TypeError are both
  swallowed.\<close>

definition float_at :: "jval list \<Rightarrow> nat \<Rightarrow> real option" where
  "float_at arr i = (if i < length arr then py_float (arr ! i) else None)"

text \<open>The values collected by \<^verbatim>\<open>for j in js: if idx + j < LEN: try: ... float(arr[idx+j])\<close>.\<close>

definition window_floats :: "nat \<Rightarrow> jval list \<Rightarrow> nat \<Rightarrow> nat list \<Rightarrow> real list" where
  "window_floats LEN arr idx js =
     List.map_filter (\<lambda>j. if idx + j < LEN then float_at arr (idx + j) else None) js"

definition acc3 :: "nat \<Rightarrow> jval list \<Rightarrow> nat \<Rightarrow> real" where
  "acc3 LEN prec_arr idx = sum_list (window_floats LEN prec_arr idx [0, 1, 2])"

definition acc6 :: "nat \<Rightarrow> jval list \<Rightarrow> nat \<Rightarrow> real" where
  "acc6 LEN prec_arr idx = sum_list (window_floats LEN prec_arr idx [0..<6])"

section \<open>Deviation\<close>

text \<open>\<^verbatim>\<open>statistics.pstdev\<close>: the square root of the mean squared distance from the
  mean, the mean being taken over all values.\<close>

definition mean :: "real list \<Rightarrow> real" where
  "mean xs = sum_list xs / real (length xs)"

definition pvariance :: "real list \<Rightarrow> real" where
  "pvariance xs = sum_list (map (\<lambda>x. (x - mean xs)\<^sup>2) xs) / real (length xs)"

definition pstdev :: "real list \<Rightarrow> real" where
  "pstdev xs = sqrt (pvariance xs)"

definition dev_mm :: "nat \<Rightarrow> jval list \<Rightarrow> nat \<Rightarrow> real" where
  "dev_mm LEN prec_arr idx =
     (let window_vals = window_floats LEN prec_arr idx [0, 1, 2] in
      if length window_vals \<ge> 2 then pstdev window_vals else 0)"

text \<open>The ensemble members after \<^verbatim>\<open>float(x) if x is not None else 0.0\<close>; the list is
  empty when the ensemble fetch gave no \<^verbatim>\<open>rain_member\<close> series.\<close>

definition ensemble_members :: "jval list list \<Rightarrow> real list list" where
  "ensemble_members raw = map (map (\<lambda>x. case x of JNull \<Rightarrow> 0 | JNum r \<Rightarrow> r)) raw"

definition member_sum :: "real list \<Rightarrow> nat \<Rightarrow> real" where
  "member_sum mem idx =
     sum_list (List.map_filter
       (\<lambda>j. if idx + j < length mem then Some (mem ! (idx + j)) else None) [0, 1, 2])"

definition dev_ens_3hr :: "real list list \<Rightarrow> nat \<Rightarrow> real" where
  "dev_ens_3hr members idx =
     (if members \<noteq> [] then
        (let member_sums = map (\<lambda>mem. member_sum mem idx) members in
         if length member_sums \<ge> 2 then pstdev member_sums else 0)
      else 0)"

datatype dev_level = DEV_NONE | DEV_WARN | DEV_DANGER

text \<open>The level read off by the two \<^verbatim>\<open>if dev >= DEV_DANGER_TH ... elif dev >= DEV_WARN_TH\<close>
  blocks.\<close>

definition dev_level_of :: "real \<Rightarrow> dev_level" where
  "dev_level_of dev =
     (if dev \<ge> DEV_DANGER_TH then DEV_DANGER
      else if dev \<ge> DEV_WARN_TH then DEV_WARN
      else DEV_NONE)"

section \<open>Strings\<close>

text \<open>
  A Python string is the list of its code points, here the code points below 256.
  \<^verbatim>\<open>str.strip()\<close> removes the white space of that range at both ends;
  \<^verbatim>\<open>str.lower()\<close> is modelled on the ASCII letters.
\<close>

abbreviation (input) LF :: char where "LF \<equiv> CHR 0x0A"
abbreviation (input) CR :: char where "CR \<equiv> CHR 0x0D"

definition is_space :: "char \<Rightarrow> bool" where
  "is_space c =
     (c = CHR 0x09 \<or> c = CHR 0x0A \<or> c = CHR 0x0B \<or> c = CHR 0x0C \<or> c = CHR 0x0D
      \<or> c = CHR 0x1C \<or> c = CHR 0x1D \<or> c = CHR 0x1E \<or> c = CHR 0x1F \<or> c = CHR 0x20
      \<or> c = CHR 0x85 \<or> c = CHR 0xA0)"

definition py_strip :: "string \<Rightarrow> string" where
  "py_strip s = rev (dropWhile is_space (rev (dropWhile is_space s)))"

definition py_lower_char :: "char \<Rightarrow> char" where
  "py_lower_char c =
     (let n = (of_char c :: nat) in if 65 \<le> n \<and> n \<le> 90 then char_of (n + 32) else c)"

definition py_lower :: "string \<Rightarrow> string" where
  "py_lower s = map py_lower_char s"

text \<open>\<^verbatim>\<open>s.split(sep, 1)\<close>\<close>

definition split_once :: "char \<Rightarrow> string \<Rightarrow> string list" where
  "split_once sep s =
     (if sep \<in> set s
      then [takeWhile (\<lambda>c. c \<noteq> sep) s, tl (dropWhile (\<lambda>c. c \<noteq> sep) s)]
      else [s])"

section \<open>Previous-temperature store\<close>

text \<open>
  The store is a \<^verbatim>\<open>Dict[str,str]\<close>: an association list in insertion order, updated
  with \<^const>\<open>AList.update\<close> as a dict assignment does. The file is \<open>None\<close> when it does
  not exist, else its text. Reading in text mode turns \<^verbatim>\<open>\r\n\<close> and \<^verbatim>\<open>\r\<close> into
  \<^verbatim>\<open>\n\<close> and iterates over the lines, each with its terminator. A write that fails is
  not modelled.
\<close>

fun universal_newlines :: "string \<Rightarrow> string" where
  "universal_newlines [] = []"
| "universal_newlines [c] = [if c = CR then LF else c]"
| "universal_newlines (c # d # ds) =
     (if c = CR \<and> d = LF then LF # universal_newlines ds
      else if c = CR then LF # universal_newlines (d # ds)
      else c # universal_newlines (d # ds))"

fun split_lines :: "string \<Rightarrow> string list" where
  "split_lines [] = []"
| "split_lines (c # cs) =
     (if c = LF then [LF] # split_lines cs
      else (case split_lines cs of [] \<Rightarrow> [[c]] | l # ls \<Rightarrow> (c # l) # ls))"

definition load_line :: "string \<Rightarrow> (string \<times> string) list \<Rightarrow> (string \<times> string) list" where
  "load_line line data =
     (let s = py_strip line in
      if s = [] then data
      else (case split_once CHR ''|'' s of
              [a, b] \<Rightarrow>
                (let key = py_strip a; val = py_strip b in
                 if key \<noteq> [] \<and> val \<noteq> [] then AList.update key val data else data)
            | _ \<Rightarrow> data))"

definition load_prev_temp_file :: "string option \<Rightarrow> (string \<times> string) list" where
  "load_prev_temp_file file =
     (case file of
        None \<Rightarrow> []
      | Some text \<Rightarrow> fold load_line (split_lines (universal_newlines text)) [])"

definition save_prev_temp_file :: "(string \<times> string) list \<Rightarrow> string option" where
  "save_prev_temp_file store = Some (concat (map (\<lambda>(k, v). k @ ''|'' @ v @ [LF]) store))"

definition lookup_prev_temp_for ::
  "string \<Rightarrow> string \<Rightarrow> (string \<times> string) list \<Rightarrow> string option" where
  "lookup_prev_temp_for name key_latlon prev_map =
     (if prev_map = [] then None
      else
        (let key_name = py_strip name in
         case map_of prev_map key_name of
           Some v \<Rightarrow> Some v
         | None \<Rightarrow>
             (case map_of prev_map key_latlon of
                Some v \<Rightarrow> Some v
              | None \<Rightarrow>
                  (case find (\<lambda>kv. py_lower key_name = py_lower (fst kv)) prev_map of
                     Some kv \<Rightarrow> Some (snd kv)
                   | None \<Rightarrow> None))))"

section \<open>Risk score\<close>

text \<open>One \<^verbatim>\<open>if cond: score += n; REASONS.append(tok)\<close>.\<close>

fun add_if :: "bool \<Rightarrow> int \<Rightarrow> string \<Rightarrow> int \<times> string list \<Rightarrow> int \<times> string list" where
  "add_if cond n tok (score, REASONS) =
     (if cond then (score + n, REASONS @ [tok]) else (score, REASONS))"

text \<open>
  \<^verbatim>\<open>if prev: try: if float(prev) - float(SUHU) >= SCORE_TEMP_DROP ... except: pass\<close>.
  The lookup result \<open>prev\<close> is a string or \<open>None\<close>; \<open>text_float\<close> stands for Python's
  \<^verbatim>\<open>float\<close> on a string (\<open>None\<close> when it raises) and is a parameter of the model.
\<close>

definition temp_dropped :: "(string \<Rightarrow> real option) \<Rightarrow> string option \<Rightarrow> real \<Rightarrow> bool" where
  "temp_dropped text_float prev temp =
     (case prev of
        None \<Rightarrow> False
      | Some p \<Rightarrow>
          (if p = [] then False
           else (case text_float p of
                   None \<Rightarrow> False
                 | Some pv \<Rightarrow> pv - temp \<ge> SCORE_TEMP_DROP)))"

text \<open>
  The score block of \<^verbatim>\<open>run_once\<close>, from \<^verbatim>\<open>score = 0\<close> to the rain contribution.
  Each \<^verbatim>\<open>float(...)\<close> outside a \<^verbatim>\<open>try\<close> is a bind: \<open>None\<close> is the TypeError
  that ends the run. \<^verbatim>\<open>float(UV)\<close> is evaluated only when the hour is in 8..16.
\<close>

definition risk_score ::
  "(string \<Rightarrow> real option) \<Rightarrow> string option \<Rightarrow> jval \<Rightarrow> jval \<Rightarrow> jval \<Rightarrow> jval \<Rightarrow> int \<Rightarrow> jval
     \<Rightarrow> jval \<Rightarrow> jval \<Rightarrow> string list \<Rightarrow> (int \<times> string list) option" where
  "risk_score text_float prev LEMBAP SUHU ANGIN WINDGUST HOUR UV HUJAN_PROB RAINMM REASONS =
     Option.bind (py_float LEMBAP) (\<lambda>hum.
       let s1 = add_if (hum > SCORE_HUMID_TH) 2 ''humid'' (0, REASONS) in
     Option.bind (py_float SUHU) (\<lambda>temp.
       let s2 = add_if (SCORE_TEMP_LOW \<le> temp \<and> temp \<le> SCORE_TEMP_HIGH) 1 ''temp_ok'' s1;
           s3 = add_if (temp_dropped text_float prev temp) 2 ''temp_drop'' s2 in
     Option.bind (py_float ANGIN) (\<lambda>wind.
       let s4 = add_if (SCORE_WIND_MIN \<le> wind \<and> wind \<le> SCORE_WIND_MAX) 1 ''wind_ok'' s3 in
     Option.bind (py_float WINDGUST) (\<lambda>gust.
       let s5 = add_if (gust > SCORE_GUST_TH) 1 ''gust'' s4 in
     Option.bind
       (if 8 \<le> HOUR \<and> HOUR \<le> 16
        then Option.bind (py_float UV) (\<lambda>uv. Some (add_if (uv \<ge> SCORE_UV_TH) 2 ''uv_high'' s5))
        else Some s5) (\<lambda>s6.
     Option.bind (py_float HUJAN_PROB) (\<lambda>prob.
       let s7 = (if prob \<ge> 70 then add_if True 2 ''prob>=70'' s6
                 else add_if (prob \<ge> 50) 1 ''prob>=50'' s6) in
     Option.bind (py_float RAINMM) (\<lambda>rain.
       Some (if rain \<ge> 1 then add_if True 3 ''rained_now'' s7
             else add_if (rain \<ge> 3 / 10) 1 ''drizzle'' s7))))))))"

section \<open>Status\<close>

datatype status = Aman | Waspada | Rawan

fun status_rank :: "status \<Rightarrow> nat" where
  "status_rank Aman = 0"
| "status_rank Waspada = 1"
| "status_rank Rawan = 2"

definition initial_status :: "int \<Rightarrow> status" where
  "initial_status score = (if score \<ge> 7 then Rawan else if score \<ge> 4 then Waspada else Aman)"

text \<open>
  The override rules, in the order of the source. Each works on \<^verbatim>\<open>STATUS\<close> and
  \<^verbatim>\<open>REASONS\<close>. \<open>bmk_hit\<close> says that the advisory text \<^verbatim>\<open>BMK_SUM\<close> is non-empty and
  its lower-cased form matches the keyword pattern.
\<close>

fun rule_bmkg :: "bool \<Rightarrow> status \<times> string list \<Rightarrow> status \<times> string list" where
  "rule_bmkg bmk_hit (STATUS, REASONS) =
     (if bmk_hit
      then (Rawan, if ''BMKG_warn'' \<in> set REASONS then REASONS else REASONS @ [''BMKG_warn''])
      else (STATUS, REASONS))"

fun rule_rain :: "real \<Rightarrow> status \<times> string list \<Rightarrow> status \<times> string list" where
  "rule_rain rain (STATUS, REASONS) =
     (if STATUS \<noteq> Rawan then
        (if rain \<ge> RAWAN_RAIN_MM then (Rawan, REASONS @ [''rainmm_rawan''])
         else if rain \<ge> WASP_RAIN_MM then (Waspada, REASONS @ [''rainmm_wasp''])
         else (STATUS, REASONS))
      else (STATUS, REASONS))"

fun rule_acc :: "real \<Rightarrow> real \<Rightarrow> status \<times> string list \<Rightarrow> status \<times> string list" where
  "rule_acc a3 a6 (STATUS, REASONS) =
     (if STATUS \<noteq> Rawan then
        (if a3 \<ge> ACC3_RAWAN_MM \<or> a6 \<ge> ACC6_RAWAN_MM then (Waspada, REASONS @ [''acc_rain''])
         else (STATUS, REASONS))
      else (STATUS, REASONS))"

fun rule_wind :: "real \<Rightarrow> status \<times> string list \<Rightarrow> status \<times> string list" where
  "rule_wind wind (STATUS, REASONS) =
     (if wind \<ge> WIND_DANGER then (Rawan, REASONS @ [''wind_sust_danger''])
      else if STATUS \<noteq> Rawan \<and> wind \<ge> WIND_WARN then (Waspada, REASONS @ [''wind_warn''])
      else (STATUS, REASONS))"

fun rule_gust :: "real \<Rightarrow> status \<times> string list \<Rightarrow> status \<times> string list" where
  "rule_gust gust (STATUS, REASONS) =
     (if gust \<ge> GUST_DANGER then (Rawan, REASONS @ [''gust_danger''])
      else if STATUS \<noteq> Rawan \<and> gust \<ge> GUST_WARN then (Waspada, REASONS @ [''gust_warn''])
      else (STATUS, REASONS))"

text \<open>The whole chain from the score to the final status of the hour. The deviation
  flags stand between the accumulation rule and the wind rule in the source and do not
  touch the status.\<close>

definition resolve_status ::
  "int \<Rightarrow> bool \<Rightarrow> real \<Rightarrow> real \<Rightarrow> real \<Rightarrow> real \<Rightarrow> real \<Rightarrow> string list \<Rightarrow> status \<times> string list" where
  "resolve_status score bmk_hit rain a3 a6 wind gust REASONS =
     rule_gust gust (rule_wind wind (rule_acc a3 a6 (rule_rain rain
       (rule_bmkg bmk_hit (initial_status score, REASONS)))))"

section \<open>Accumulators of a run\<close>

text \<open>
  The \<^verbatim>\<open>AGG_*\<close> dictionaries map a slot to a count (0 where nothing was added) and the
  \<^verbatim>\<open>PERKOTA_*\<close> dictionaries map a location name to its space-joined time list, here the
  list of the slots in the order they were appended. Only the accumulators below are
  modelled; the thunder, wind, gust, waspada, real-rain and sky-histogram accumulators and
  all printing are left out: nothing modelled here reads them.
\<close>

record run_state =
  AGG_AMAN :: "slot \<Rightarrow> nat"
  AGG_WASP :: "slot \<Rightarrow> nat"
  AGG_RAWAN :: "slot \<Rightarrow> nat"
  AGG_DEV_WARN :: "slot \<Rightarrow> nat"
  AGG_DEV_DANGER :: "slot \<Rightarrow> nat"
  AGG_RAIN_GERIMIS :: "slot \<Rightarrow> nat"
  AGG_RAIN_RINGAN :: "slot \<Rightarrow> nat"
  AGG_RAIN_SEDANG :: "slot \<Rightarrow> nat"
  AGG_RAIN_DERAS :: "slot \<Rightarrow> nat"
  PERKOTA_DEV_WARN :: "string \<Rightarrow> slot list"
  PERKOTA_DEV_DANGER :: "string \<Rightarrow> slot list"
  PERKOTA_RAIN_GERIMIS :: "string \<Rightarrow> slot list"
  PERKOTA_RAIN_RINGAN :: "string \<Rightarrow> slot list"
  PERKOTA_RAIN_SEDANG :: "string \<Rightarrow> slot list"
  PERKOTA_RAIN_DERAS :: "string \<Rightarrow> slot list"
  PREV_TEMP :: "(string \<times> string) list"
  processed_count :: nat

text \<open>The values of the loop body's variables at the end of one hour.\<close>

record hour_result =
  h_rain_cat :: rain_cat
  h_SKY_LABEL :: sky
  h_dev_mm :: real
  h_dev_ens_3hr :: real
  h_score :: int
  h_STATUS :: status
  h_REASONS :: "string list"

definition rain_ref_for_cat :: "real \<Rightarrow> real \<Rightarrow> real \<Rightarrow> real" where
  "rain_ref_for_cat rain a3 a6 =
     (if rain > 1 / 10000 then rain else if a3 > 1 / 10000 then a3 else a6)"

text \<open>The \<^verbatim>\<open>if rain_cat == "GERIMIS": ... elif ...\<close> chain: the hour goes to the list and
  the count of its category and \<^verbatim>\<open>REASONS\<close> gets the category's token.\<close>

definition record_rain_cat ::
  "string \<Rightarrow> slot \<Rightarrow> rain_cat \<Rightarrow> run_state \<Rightarrow> run_state \<times> string list" where
  "record_rain_cat K TIME cat st =
     (case cat of
        GERIMIS \<Rightarrow>
          (st\<lparr>PERKOTA_RAIN_GERIMIS := (PERKOTA_RAIN_GERIMIS st)(K := PERKOTA_RAIN_GERIMIS st K @ [TIME]),
              AGG_RAIN_GERIMIS := (AGG_RAIN_GERIMIS st)(TIME := AGG_RAIN_GERIMIS st TIME + 1)\<rparr>,
           [''rain_gerimis''])
      | RINGAN \<Rightarrow>
          (st\<lparr>PERKOTA_RAIN_RINGAN := (PERKOTA_RAIN_RINGAN st)(K := PERKOTA_RAIN_RINGAN st K @ [TIME]),
              AGG_RAIN_RINGAN := (AGG_RAIN_RINGAN st)(TIME := AGG_RAIN_RINGAN st TIME + 1)\<rparr>,
           [''rain_ringan''])
      | SEDANG \<Rightarrow>
          (st\<lparr>PERKOTA_RAIN_SEDANG := (PERKOTA_RAIN_SEDANG st)(K := PERKOTA_RAIN_SEDANG st K @ [TIME]),
              AGG_RAIN_SEDANG := (AGG_RAIN_SEDANG st)(TIME := AGG_RAIN_SEDANG st TIME + 1)\<rparr>,
           [''rain_sedang''])
      | DERAS \<Rightarrow>
          (st\<lparr>PERKOTA_RAIN_DERAS := (PERKOTA_RAIN_DERAS st)(K := PERKOTA_RAIN_DERAS st K @ [TIME]),
              AGG_RAIN_DERAS := (AGG_RAIN_DERAS st)(TIME := AGG_RAIN_DERAS st TIME + 1)\<rparr>,
           [''rain_keras''])
      | NONE \<Rightarrow> (st, []))"

text \<open>One deviation-flag block, which records the hour under the level of its deviation;
  the source has the block twice, first for \<^verbatim>\<open>dev_mm\<close>, then for \<^verbatim>\<open>dev_ens_3hr\<close>.\<close>

definition flag_dev :: "string \<Rightarrow> slot \<Rightarrow> real \<Rightarrow> run_state \<Rightarrow> run_state" where
  "flag_dev K TIME dev st =
     (case dev_level_of dev of
        DEV_DANGER \<Rightarrow>
          st\<lparr>PERKOTA_DEV_DANGER := (PERKOTA_DEV_DANGER st)(K := PERKOTA_DEV_DANGER st K @ [TIME]),
             AGG_DEV_DANGER := (AGG_DEV_DANGER st)(TIME := AGG_DEV_DANGER st TIME + 1)\<rparr>
      | DEV_WARN \<Rightarrow>
          st\<lparr>PERKOTA_DEV_WARN := (PERKOTA_DEV_WARN st)(K := PERKOTA_DEV_WARN st K @ [TIME]),
             AGG_DEV_WARN := (AGG_DEV_WARN st)(TIME := AGG_DEV_WARN st TIME + 1)\<rparr>
      | DEV_NONE \<Rightarrow> st)"

text \<open>The three \<^verbatim>\<open>if STATUS == ...\<close> statements that count the hour.\<close>

definition count_status :: "slot \<Rightarrow> status \<Rightarrow> run_state \<Rightarrow> run_state" where
  "count_status TIME STATUS st =
     (let st1 = (if STATUS = Aman
                 then st\<lparr>AGG_AMAN := (AGG_AMAN st)(TIME := AGG_AMAN st TIME + 1)\<rparr> else st);
          st2 = (if STATUS = Waspada
                 then st1\<lparr>AGG_WASP := (AGG_WASP st1)(TIME := AGG_WASP st1 TIME + 1)\<rparr> else st1)
      in if STATUS = Rawan
         then st2\<lparr>AGG_RAWAN := (AGG_RAWAN st2)(TIME := AGG_RAWAN st2 TIME + 1)\<rparr> else st2)"

definition sky_token :: "sky \<Rightarrow> string" where
  "sky_token l =
     (case l of
        CERAH \<Rightarrow> ''sky_cerah'' | BERAWAN \<Rightarrow> ''sky_berawan'' | MENDUNG \<Rightarrow> ''sky_mendung''
      | HUJAN_GERIMIS \<Rightarrow> ''sky_hujan_gerimis'' | HUJAN_RINGAN \<Rightarrow> ''sky_hujan_ringan''
      | HUJAN_SEDANG \<Rightarrow> ''sky_hujan_sedang'' | HUJAN_DERAS \<Rightarrow> ''sky_hujan_deras''
      | HUJAN_POTENSIAL \<Rightarrow> ''sky_hujan_potensial'')"

section \<open>One hour, one location, one run\<close>

record forecast =
  times_jq :: "slot list"
  temp_arr :: "jval list"
  pop_arr :: "jval list"
  prec_arr :: "jval list"
  hum_arr :: "jval list"
  wind_arr :: "jval list"
  gust_arr :: "jval list"
  uv_arr :: "jval list"

text \<open>
  A location: its name \<^verbatim>\<open>K\<close>, its coordinate key (the \<^verbatim>\<open>"lat,lon"\<close> string with four
  decimals), the fetched forecast (\<open>None\<close> when the fetch failed), the raw ensemble member
  series and whether the advisory text matches.
\<close>

record location =
  loc_name :: string
  loc_latlon :: string
  loc_DATA :: "forecast option"
  loc_ens :: "jval list list"
  loc_bmk_hit :: bool

text \<open>
  The body of \<^verbatim>\<open>for TIME in TIMES\<close> once \<^verbatim>\<open>idx\<close> is found. \<open>text_float\<close> and
  \<open>py_str\<close> stand for Python's \<^verbatim>\<open>float\<close> on a string and \<^verbatim>\<open>str\<close>. The result
  is \<open>None\<close> when an unguarded \<^verbatim>\<open>float(None)\<close> raises.
\<close>

definition process_hour ::
  "(string \<Rightarrow> real option) \<Rightarrow> (jval \<Rightarrow> string) \<Rightarrow> location \<Rightarrow> forecast \<Rightarrow> slot \<Rightarrow> nat
     \<Rightarrow> run_state \<Rightarrow> (hour_result \<times> run_state) option" where
  "process_hour text_float py_str L DATA TIME idx st =
     (let K = loc_name L;
          LEN = length (times_jq DATA);
          SUHU = at_or_zero (temp_arr DATA) idx;
          HUJAN_PROB = at_or_zero (pop_arr DATA) idx;
          RAINMM = at_or_zero (prec_arr DATA) idx;
          LEMBAP = at_or_zero (hum_arr DATA) idx;
          ANGIN = at_or_zero (wind_arr DATA) idx;
          WINDGUST = at_or_zero (gust_arr DATA) idx;
          UV = at_or_zero (uv_arr DATA) idx;
          a3 = acc3 LEN (prec_arr DATA) idx;
          a6 = acc6 LEN (prec_arr DATA) idx;
          dev = dev_mm LEN (prec_arr DATA) idx;
          dev_ens = dev_ens_3hr (ensemble_members (loc_ens L)) idx
      in
      Option.bind (py_float RAINMM) (\<lambda>rain.
        let rain_cat = classify_rain_mm (JNum (rain_ref_for_cat rain a3 a6));
            st1 = fst (record_rain_cat K TIME rain_cat st);
            HOUR = hour_of TIME;
            SKY_LABEL = classify_sky HUJAN_PROB RAINMM (JNum a3) (JNum a6) LEMBAP UV (Some HOUR);
            REASONS = sky_token SKY_LABEL # snd (record_rain_cat K TIME rain_cat st);
            prev = lookup_prev_temp_for K (loc_latlon L) (PREV_TEMP st1)
        in
      Option.bind
        (risk_score text_float prev LEMBAP SUHU ANGIN WINDGUST HOUR UV HUJAN_PROB RAINMM REASONS)
        (\<lambda>scored.
      Option.bind (py_float ANGIN) (\<lambda>wind.
      Option.bind (py_float WINDGUST) (\<lambda>gust.
      Option.bind (py_float HUJAN_PROB) (\<lambda>prob.
        let resolved = resolve_status (fst scored) (loc_bmk_hit L) rain a3 a6 wind gust (snd scored);
            st2 = flag_dev K TIME dev_ens (flag_dev K TIME dev st1);
            REASONS2 = (if prob \<ge> 70 \<and> wind \<ge> 10 \<and> ''prob70_wind10'' \<notin> set (snd resolved)
                        then snd resolved @ [''prob70_wind10''] else snd resolved);
            st3 = count_status TIME (fst resolved) st2;
            st4 = st3\<lparr>PREV_TEMP :=
                    AList.update (loc_latlon L) (py_str SUHU)
                      (AList.update K (py_str SUHU) (PREV_TEMP st3))\<rparr>
        in
        Some (\<lparr>h_rain_cat = rain_cat, h_SKY_LABEL = SKY_LABEL, h_dev_mm = dev,
                h_dev_ens_3hr = dev_ens, h_score = fst scored, h_STATUS = fst resolved,
                h_REASONS = REASONS2\<rparr>, st4)))))))"

text \<open>\<^verbatim>\<open>for TIME in TIMES: try: idx = times_jq.index(TIME)  except ValueError: continue\<close>\<close>

fun hours_loop ::
  "(string \<Rightarrow> real option) \<Rightarrow> (jval \<Rightarrow> string) \<Rightarrow> location \<Rightarrow> forecast \<Rightarrow> slot list
     \<Rightarrow> run_state \<Rightarrow> run_state option" where
  "hours_loop text_float py_str L DATA [] st = Some st"
| "hours_loop text_float py_str L DATA (TIME # TIMES) st =
     (case index_of (times_jq DATA) TIME of
        None \<Rightarrow> hours_loop text_float py_str L DATA TIMES st
      | Some idx \<Rightarrow>
          Option.bind (process_hour text_float py_str L DATA TIME idx st)
            (\<lambda>r. hours_loop text_float py_str L DATA TIMES (snd r)))"

text \<open>The start of a processed location: \<^verbatim>\<open>processed_count += 1\<close> and the location's
  lists set to the empty string.\<close>

definition begin_location :: "string \<Rightarrow> run_state \<Rightarrow> run_state" where
  "begin_location K st =
     st\<lparr>processed_count := processed_count st + 1,
        PERKOTA_RAIN_GERIMIS := (PERKOTA_RAIN_GERIMIS st)(K := []),
        PERKOTA_RAIN_RINGAN := (PERKOTA_RAIN_RINGAN st)(K := []),
        PERKOTA_RAIN_SEDANG := (PERKOTA_RAIN_SEDANG st)(K := []),
        PERKOTA_RAIN_DERAS := (PERKOTA_RAIN_DERAS st)(K := []),
        PERKOTA_DEV_WARN := (PERKOTA_DEV_WARN st)(K := []),
        PERKOTA_DEV_DANGER := (PERKOTA_DEV_DANGER st)(K := [])\<rparr>"

text \<open>\<^verbatim>\<open>for K in list(LAT.keys())\<close>: a location whose fetch failed is skipped.\<close>

fun locations_loop ::
  "(string \<Rightarrow> real option) \<Rightarrow> (jval \<Rightarrow> string) \<Rightarrow> slot list \<Rightarrow> location list
     \<Rightarrow> run_state \<Rightarrow> run_state option" where
  "locations_loop text_float py_str TIMES [] st = Some st"
| "locations_loop text_float py_str TIMES (L # Ls) st =
     (case loc_DATA L of
        None \<Rightarrow> locations_loop text_float py_str TIMES Ls st
      | Some DATA \<Rightarrow>
          Option.bind (hours_loop text_float py_str L DATA TIMES (begin_location (loc_name L) st))
            (locations_loop text_float py_str TIMES Ls))"

definition initial_state :: "(string \<times> string) list \<Rightarrow> run_state" where
  "initial_state prev =
     \<lparr>AGG_AMAN = (\<lambda>t. 0), AGG_WASP = (\<lambda>t. 0), AGG_RAWAN = (\<lambda>t. 0),
      AGG_DEV_WARN = (\<lambda>t. 0), AGG_DEV_DANGER = (\<lambda>t. 0),
      AGG_RAIN_GERIMIS = (\<lambda>t. 0), AGG_RAIN_RINGAN = (\<lambda>t. 0),
      AGG_RAIN_SEDANG = (\<lambda>t. 0), AGG_RAIN_DERAS = (\<lambda>t. 0),
      PERKOTA_DEV_WARN = (\<lambda>k. []), PERKOTA_DEV_DANGER = (\<lambda>k. []),
      PERKOTA_RAIN_GERIMIS = (\<lambda>k. []), PERKOTA_RAIN_RINGAN = (\<lambda>k. []),
      PERKOTA_RAIN_SEDANG = (\<lambda>k. []), PERKOTA_RAIN_DERAS = (\<lambda>k. []),
      PREV_TEMP = prev, processed_count = 0\<rparr>"

text \<open>\<^verbatim>\<open>run_once\<close> up to the end of the location loop: the store is loaded, the
  locations are processed in order, and the run ends in the final accumulators.\<close>

definition run_once ::
  "(string \<Rightarrow> real option) \<Rightarrow> (jval \<Rightarrow> string) \<Rightarrow> slot \<Rightarrow> string option \<Rightarrow> location list
     \<Rightarrow> run_state option" where
  "run_once text_float py_str now_dt file Ls =
     locations_loop text_float py_str (build_times_list now_dt) Ls
       (initial_state (load_prev_temp_file file))"

text \<open>What the category chain does to the counts, the lists and the reasons.\<close>

definition rain_recorded ::
  "rain_cat \<Rightarrow> string \<Rightarrow> slot \<Rightarrow> run_state \<Rightarrow> run_state \<Rightarrow> string list \<Rightarrow> bool" where
  "rain_recorded c K TIME st st' REASONS =
     (AGG_RAIN_GERIMIS st' TIME = AGG_RAIN_GERIMIS st TIME + (if c = GERIMIS then 1 else 0)
      \<and> AGG_RAIN_RINGAN st' TIME = AGG_RAIN_RINGAN st TIME + (if c = RINGAN then 1 else 0)
      \<and> AGG_RAIN_SEDANG st' TIME = AGG_RAIN_SEDANG st TIME + (if c = SEDANG then 1 else 0)
      \<and> AGG_RAIN_DERAS st' TIME = AGG_RAIN_DERAS st TIME + (if c = DERAS then 1 else 0)
      \<and> PERKOTA_RAIN_GERIMIS st' K = PERKOTA_RAIN_GERIMIS st K @ (if c = GERIMIS then [TIME] else [])
      \<and> PERKOTA_RAIN_RINGAN st' K = PERKOTA_RAIN_RINGAN st K @ (if c = RINGAN then [TIME] else [])
      \<and> PERKOTA_RAIN_SEDANG st' K = PERKOTA_RAIN_SEDANG st K @ (if c = SEDANG then [TIME] else [])
      \<and> PERKOTA_RAIN_DERAS st' K = PERKOTA_RAIN_DERAS st K @ (if c = DERAS then [TIME] else [])
      \<and> set (case c of NONE \<Rightarrow> [] | GERIMIS \<Rightarrow> [''rain_gerimis''] | RINGAN \<Rightarrow> [''rain_ringan'']
              | SEDANG \<Rightarrow> [''rain_sedang''] | DERAS \<Rightarrow> [''rain_keras'']) \<subseteq> set REASONS)"

section \<open>Cross-location windows\<close>

text \<open>\<^verbatim>\<open>int(x)\<close> on a float truncates towards zero.\<close>

definition py_int :: "real \<Rightarrow> int" where
  "py_int x = (if x \<ge> 0 then \<lfloor>x\<rfloor> else \<lceil>x\<rceil>)"

definition best_aman_times :: "slot list \<Rightarrow> run_state \<Rightarrow> slot list" where
  "best_aman_times TIMES st =
     filter (\<lambda>t. processed_count st > 0
                \<and> int (AGG_AMAN st t) \<ge> py_int (real (processed_count st) * THRESH_PCT + 999 / 1000))
       TIMES"

definition any_rawan_times :: "slot list \<Rightarrow> run_state \<Rightarrow> slot list" where
  "any_rawan_times TIMES st = filter (\<lambda>t. AGG_RAWAN st t > 1) TIMES"

text \<open>The sum of the three status counts of a slot, and the number of locations of a run
  that were fetched and have the slot on their time axis.\<close>

definition status_total :: "run_state \<Rightarrow> slot \<Rightarrow> nat" where
  "status_total st t = AGG_AMAN st t + AGG_WASP st t + AGG_RAWAN st t"

definition processed_for_slot :: "slot \<Rightarrow> location list \<Rightarrow> nat" where
  "processed_for_slot t Ls =
     length (filter (\<lambda>L. case loc_DATA L of None \<Rightarrow> False | Some DATA \<Rightarrow> t \<in> set (times_jq DATA)) Ls)"

text \<open>A forecast all of whose array entries are numbers.\<close>

definition is_num :: "jval \<Rightarrow> bool" where
  "is_num v = (case v of JNull \<Rightarrow> False | JNum r \<Rightarrow> True)"

definition numeric_forecast :: "forecast \<Rightarrow> bool" where
  "numeric_forecast DATA =
     (list_all is_num (temp_arr DATA) \<and> list_all is_num (pop_arr DATA)
      \<and> list_all is_num (prec_arr DATA) \<and> list_all is_num (hum_arr DATA)
      \<and> list_all is_num (wind_arr DATA) \<and> list_all is_num (gust_arr DATA)
      \<and> list_all is_num (uv_arr DATA))"

definition numeric_location :: "location \<Rightarrow> bool" where
  "numeric_location L = (case loc_DATA L of None \<Rightarrow> True | Some DATA \<Rightarrow> numeric_forecast DATA)"

text \<open>Strings that a line of the store file keeps as they are: free of line breaks, and
  non-empty without white space at either end.\<close>

definition no_line_break :: "string \<Rightarrow> bool" where
  "no_line_break s = (LF \<notin> set s \<and> CR \<notin> set s)"

definition trimmed :: "string \<Rightarrow> bool" where
  "trimmed s = (s \<noteq> [] \<and> \<not> is_space (hd s) \<and> \<not> is_space (last s))"

definition storable_entry :: "string \<times> string \<Rightarrow> bool" where
  "storable_entry kv =
     (trimmed (fst kv) \<and> trimmed (snd kv) \<and> no_line_break (fst kv) \<and> no_line_break (snd kv)
      \<and> CHR ''|'' \<notin> set (fst kv))"

section \<open>Rain category\<close>

text \<open>
  C3, as the code has it: the category is NONE up to and including 0.0001 mm, GERIMIS
  above 0.0001 and below 1.0, RINGAN from 1.0 and below 2.5, SEDANG from 2.5 and below
  7.6, DERAS from 7.6; a value that \<^verbatim>\<open>float\<close> rejects counts as 0.0. The
  classifier is a total function.
\<close>

theorem classify_rain_mm_thresholds:
  "classify_rain_mm JNull = NONE
   \<and> (m \<le> 1 / 10000 \<longrightarrow> classify_rain_mm (JNum m) = NONE)
   \<and> (1 / 10000 < m \<and> m < 1 \<longrightarrow> classify_rain_mm (JNum m) = GERIMIS)
   \<and> (1 \<le> m \<and> m < 25 / 10 \<longrightarrow> classify_rain_mm (JNum m) = RINGAN)
   \<and> (25 / 10 \<le> m \<and> m < 76 / 10 \<longrightarrow> classify_rain_mm (JNum m) = SEDANG)
   \<and> (76 / 10 \<le> m \<longrightarrow> classify_rain_mm (JNum m) = DERAS)"
  by (simp add: classify_rain_mm_def float_or_zero_def)

theorem classify_rain_mm_thresholds_witness:
  "classify_rain_mm (JNum 0) = NONE
   \<and> classify_rain_mm (JNum (5 / 10)) = GERIMIS
   \<and> classify_rain_mm (JNum (15 / 10)) = RINGAN
   \<and> classify_rain_mm (JNum 5) = SEDANG
   \<and> classify_rain_mm (JNum 10) = DERAS"
  using classify_rain_mm_thresholds [of 0] classify_rain_mm_thresholds [of "5 / 10"]
    classify_rain_mm_thresholds [of "15 / 10"] classify_rain_mm_thresholds [of 5]
    classify_rain_mm_thresholds [of 10]
  by simp

text \<open>At exactly 0.0001 mm the claim's range for GERIMIS holds, and the code answers NONE.\<close>

theorem classify_rain_mm_boundary_counterexample:
  "(1 / 10000 :: real) \<le> 1 / 10000 \<and> (1 / 10000 :: real) < 1
   \<and> classify_rain_mm (JNum (1 / 10000)) \<noteq> GERIMIS"
  by (simp add: classify_rain_mm_def float_or_zero_def)

section \<open>Sky condition\<close>

text \<open>
  C4: the reference rain value is the current-hour rain when it is at least 0.3 mm, else
  the 3-hour accumulation when at least 0.3 mm, else the 6-hour accumulation when at least
  0.6 mm, else 0. When the reference is positive the label is one of the four HUJAN labels,
  chosen by the breakpoints 1.0, 2.5 and 7.6, whatever probability, humidity, UV index and
  hour are. The three examples of the claim follow.
\<close>

theorem classify_sky_reference_rain:
  "sky_ref r a3 a6 =
     (if r \<ge> 3 / 10 then r else if a3 \<ge> 3 / 10 then a3 else if a6 \<ge> 6 / 10 then a6 else 0)
   \<and> (0 < sky_ref r a3 a6 \<longrightarrow>
        classify_sky (JNum p) (JNum r) (JNum a3) (JNum a6) (JNum h) (JNum u) hr =
          (if sky_ref r a3 a6 < 1 then HUJAN_GERIMIS
           else if sky_ref r a3 a6 < 25 / 10 then HUJAN_RINGAN
           else if sky_ref r a3 a6 < 76 / 10 then HUJAN_SEDANG
           else HUJAN_DERAS))
   \<and> classify_sky (JNum 0) (JNum 5) (JNum 0) (JNum 0) (JNum 50) (JNum 0) (Some 12)
        = HUJAN_SEDANG
   \<and> classify_sky (JNum 70) (JNum 0) (JNum 0) (JNum 0) (JNum h) (JNum u) hr
        = HUJAN_POTENSIAL
   \<and> classify_sky (JNum 0) (JNum 0) (JNum 0) (JNum 0) (JNum 50) (JNum 8) (Some 12)
        = CERAH"
proof -
  have ref: "sky_ref r a3 a6 =
     (if r \<ge> 3 / 10 then r else if a3 \<ge> 3 / 10 then a3 else if a6 \<ge> 6 / 10 then a6 else 0)"
    by (simp add: sky_ref_def)
  have coerce: "\<And>x. float_or_default (JNum x) = x"
    by (simp add: float_or_default_def)
  have pos: "0 < sky_ref r a3 a6 \<Longrightarrow> 1 / 10000 < sky_ref r a3 a6"
    by (simp add: sky_ref_def split: if_splits)
  have rain: "0 < sky_ref r a3 a6 \<longrightarrow>
        classify_sky (JNum p) (JNum r) (JNum a3) (JNum a6) (JNum h) (JNum u) hr =
          (if sky_ref r a3 a6 < 1 then HUJAN_GERIMIS
           else if sky_ref r a3 a6 < 25 / 10 then HUJAN_RINGAN
           else if sky_ref r a3 a6 < 76 / 10 then HUJAN_SEDANG
           else HUJAN_DERAS)"
    using pos by (simp add: classify_sky_def coerce Let_def)
  have e1: "classify_sky (JNum 0) (JNum 5) (JNum 0) (JNum 0) (JNum 50) (JNum 0) (Some 12)
        = HUJAN_SEDANG"
    by (simp add: classify_sky_def coerce sky_ref_def)
  have e2: "classify_sky (JNum 70) (JNum 0) (JNum 0) (JNum 0) (JNum h) (JNum u) hr
        = HUJAN_POTENSIAL"
    by (simp add: classify_sky_def coerce sky_ref_def)
  have e3: "classify_sky (JNum 0) (JNum 0) (JNum 0) (JNum 0) (JNum 50) (JNum 8) (Some 12)
        = CERAH"
    by (simp add: classify_sky_def coerce sky_ref_def)
  from ref rain e1 e2 e3 show ?thesis by blast
qed

theorem classify_sky_reference_rain_witness:
  "0 < sky_ref 0 (4 / 10) 0
   \<and> classify_sky (JNum 90) (JNum 0) (JNum (4 / 10)) (JNum 0) (JNum 50) (JNum 9) (Some 12)
       = HUJAN_GERIMIS"
  using classify_sky_reference_rain [of 0 "4 / 10" 0 90 50 9 "Some 12"]
  by (simp add: sky_ref_def)

section \<open>Facts about one hour\<close>

lemma add_if_eq:
  "add_if c n tok sr = (fst sr + (if c then n else 0), snd sr @ (if c then [tok] else []))"
  by (cases sr) simp

lemma add_if_pair:
  "(if c then add_if True n tok sr else add_if d m tok' sr) =
     (fst sr + (if c then n else if d then m else 0),
      snd sr @ (if c then [tok] else if d then [tok'] else []))"
  by (cases sr) simp

lemma uv_step:
  "(if hr then Some (add_if c n tok sr) else Some sr) =
     Some (fst sr + (if hr \<and> c then n else 0), snd sr @ (if hr \<and> c then [tok] else []))"
  by (cases sr) simp

lemma temp_dropped_prior:
  "temp_dropped tf prev temp =
     (case (case prev of None \<Rightarrow> None | Some p \<Rightarrow> if p = [] then None else tf p) of
        Some pv \<Rightarrow> pv - temp \<ge> 2 | None \<Rightarrow> False)"
  by (simp add: temp_dropped_def split: option.splits)

lemma case_prior_if:
  "(if (case prior of Some pv \<Rightarrow> pv - temp \<ge> (2::real) | None \<Rightarrow> False) then a else b) =
     (case prior of Some p \<Rightarrow> if p - temp \<ge> 2 then a else b | None \<Rightarrow> b)"
  by (simp split: option.splits)

lemma risk_score_closed_form:
  assumes "prior = (case prev of None \<Rightarrow> None | Some p \<Rightarrow> if p = [] then None else tf p)"
  shows "risk_score tf prev (JNum hum) (JNum temp) (JNum wind) (JNum gust) HOUR (JNum uv)
           (JNum prob) (JNum rain) R =
         Some (0 + (if hum > 80 then 2 else 0)
                 + (if 27 \<le> temp \<and> temp \<le> 34 then 1 else 0)
                 + (case prior of Some p \<Rightarrow> if p - temp \<ge> 2 then 2 else 0 | None \<Rightarrow> 0)
                 + (if 10 \<le> wind \<and> wind \<le> 25 then 1 else 0)
                 + (if gust > 25 then 1 else 0)
                 + (if (8 \<le> HOUR \<and> HOUR \<le> 16) \<and> uv \<ge> 7 then 2 else 0)
                 + (if prob \<ge> 70 then 2 else if prob \<ge> 50 then 1 else 0)
                 + (if rain \<ge> 1 then 3 else if rain \<ge> 3 / 10 then 1 else 0),
               ((((((((R @ (if hum > 80 then [''humid''] else []))
                 @ (if 27 \<le> temp \<and> temp \<le> 34 then [''temp_ok''] else []))
                 @ (case prior of Some p \<Rightarrow> if p - temp \<ge> 2 then [''temp_drop''] else []
                    | None \<Rightarrow> []))
                 @ (if 10 \<le> wind \<and> wind \<le> 25 then [''wind_ok''] else []))
                 @ (if gust > 25 then [''gust''] else []))
                 @ (if (8 \<le> HOUR \<and> HOUR \<le> 16) \<and> uv \<ge> 7 then [''uv_high''] else []))
                 @ (if prob \<ge> 70 then [''prob>=70''] else if prob \<ge> 50 then [''prob>=50''] else []))
                 @ (if rain \<ge> 1 then [''rained_now'']
                    else if rain \<ge> 3 / 10 then [''drizzle''] else [])))"
  apply (unfold risk_score_def Let_def py_float.simps Option.bind.simps)
  apply (unfold add_if_pair uv_step)
  apply (unfold add_if_eq fst_conv snd_conv temp_dropped_prior assms [symmetric] case_prior_if)
  apply (unfold Option.bind.simps fst_conv snd_conv)
  apply (rule refl)
  done

lemma risk_score_numeric:
  "\<exists>scored. risk_score tf prev (JNum hum) (JNum temp) (JNum wind) (JNum gust) HOUR (JNum uv)
           (JNum prob) (JNum rain) R = Some scored"
  using risk_score_closed_form [OF refl] by blast

lemma record_rain_cat_PREV_TEMP:
  "PREV_TEMP (fst (record_rain_cat K TIME c st)) = PREV_TEMP st"
  by (cases c) (simp_all add: record_rain_cat_def)

lemma process_hour_state:
  assumes "process_hour tf ps L D TIME idx st = Some (r, st')"
  shows "st' =
    (count_status TIME (h_STATUS r)
      (flag_dev (loc_name L) TIME (h_dev_ens_3hr r)
        (flag_dev (loc_name L) TIME (h_dev_mm r)
          (fst (record_rain_cat (loc_name L) TIME (h_rain_cat r) st)))))
     \<lparr>PREV_TEMP :=
        AList.update (loc_latlon L) (ps (at_or_zero (temp_arr D) idx))
          (AList.update (loc_name L) (ps (at_or_zero (temp_arr D) idx))
            (PREV_TEMP (count_status TIME (h_STATUS r)
              (flag_dev (loc_name L) TIME (h_dev_ens_3hr r)
                (flag_dev (loc_name L) TIME (h_dev_mm r)
                  (fst (record_rain_cat (loc_name L) TIME (h_rain_cat r) st)))))))\<rparr>"
  using assms unfolding process_hour_def Let_def
  by (auto split: Option.bind_splits)

lemma process_hour_locals:
  assumes "process_hour tf ps L D TIME idx st = Some (r, st')"
  shows "\<exists>rain wind gust prob scored.
      py_float (at_or_zero (prec_arr D) idx) = Some rain
    \<and> py_float (at_or_zero (wind_arr D) idx) = Some wind
    \<and> py_float (at_or_zero (gust_arr D) idx) = Some gust
    \<and> py_float (at_or_zero (pop_arr D) idx) = Some prob
    \<and> h_rain_cat r = classify_rain_mm (JNum (rain_ref_for_cat rain
          (acc3 (length (times_jq D)) (prec_arr D) idx)
          (acc6 (length (times_jq D)) (prec_arr D) idx)))
    \<and> h_dev_mm r = dev_mm (length (times_jq D)) (prec_arr D) idx
    \<and> h_dev_ens_3hr r = dev_ens_3hr (ensemble_members (loc_ens L)) idx
    \<and> risk_score tf
         (lookup_prev_temp_for (loc_name L) (loc_latlon L) (PREV_TEMP st))
         (at_or_zero (hum_arr D) idx) (at_or_zero (temp_arr D) idx) (at_or_zero (wind_arr D) idx)
         (at_or_zero (gust_arr D) idx) (hour_of TIME) (at_or_zero (uv_arr D) idx)
         (at_or_zero (pop_arr D) idx) (at_or_zero (prec_arr D) idx)
         (sky_token (h_SKY_LABEL r) # snd (record_rain_cat (loc_name L) TIME (h_rain_cat r) st))
        = Some scored
    \<and> h_score r = fst scored
    \<and> h_STATUS r = fst (resolve_status (fst scored) (loc_bmk_hit L) rain
          (acc3 (length (times_jq D)) (prec_arr D) idx)
          (acc6 (length (times_jq D)) (prec_arr D) idx)
          wind gust (snd scored))
    \<and> h_REASONS r =
        (if prob \<ge> 70 \<and> wind \<ge> 10
            \<and> ''prob70_wind10'' \<notin> set (snd (resolve_status (fst scored) (loc_bmk_hit L) rain
                 (acc3 (length (times_jq D)) (prec_arr D) idx)
                 (acc6 (length (times_jq D)) (prec_arr D) idx) wind gust (snd scored)))
         then snd (resolve_status (fst scored) (loc_bmk_hit L) rain
                 (acc3 (length (times_jq D)) (prec_arr D) idx)
                 (acc6 (length (times_jq D)) (prec_arr D) idx) wind gust (snd scored))
              @ [''prob70_wind10'']
         else snd (resolve_status (fst scored) (loc_bmk_hit L) rain
                 (acc3 (length (times_jq D)) (prec_arr D) idx)
                 (acc6 (length (times_jq D)) (prec_arr D) idx) wind gust (snd scored)))"
  using assms unfolding process_hour_def Let_def record_rain_cat_PREV_TEMP
  by (auto split: Option.bind_splits)

text \<open>An hour whose seven values are numbers is processed without an exception.\<close>

lemma process_hour_total:
  assumes "at_or_zero (temp_arr D) idx = JNum temp" "at_or_zero (pop_arr D) idx = JNum prob"
    "at_or_zero (prec_arr D) idx = JNum rain" "at_or_zero (hum_arr D) idx = JNum hum"
    "at_or_zero (wind_arr D) idx = JNum wind" "at_or_zero (gust_arr D) idx = JNum gust"
    "at_or_zero (uv_arr D) idx = JNum uv"
  shows "\<exists>r st'. process_hour tf ps L D TIME idx st = Some (r, st')"
proof -
  obtain scored where "risk_score tf
         (lookup_prev_temp_for (loc_name L) (loc_latlon L) (PREV_TEMP st))
         (JNum hum) (JNum temp) (JNum wind) (JNum gust) (hour_of TIME) (JNum uv) (JNum prob) (JNum rain)
         (sky_token (classify_sky (JNum prob) (JNum rain)
             (JNum (acc3 (length (times_jq D)) (prec_arr D) idx))
             (JNum (acc6 (length (times_jq D)) (prec_arr D) idx)) (JNum hum) (JNum uv)
             (Some (hour_of TIME))) #
          snd (record_rain_cat (loc_name L) TIME
                (classify_rain_mm (JNum (rain_ref_for_cat rain
                   (acc3 (length (times_jq D)) (prec_arr D) idx)
                   (acc6 (length (times_jq D)) (prec_arr D) idx)))) st))
        = Some scored"
    using risk_score_numeric by blast
  then show ?thesis
    unfolding process_hour_def Let_def assms record_rain_cat_PREV_TEMP
    by simp
qed

section \<open>Status resolution\<close>

lemma rule_bmkg_mono: "status_rank S \<le> status_rank (fst (rule_bmkg b (S, R)))"
  by (cases S) simp_all

lemma rule_rain_mono: "status_rank S \<le> status_rank (fst (rule_rain x (S, R)))"
  by (cases S) simp_all

lemma rule_acc_mono: "status_rank S \<le> status_rank (fst (rule_acc x y (S, R)))"
  by (cases S) simp_all

lemma rule_wind_mono: "status_rank S \<le> status_rank (fst (rule_wind x (S, R)))"
  by (cases S) simp_all

lemma rule_gust_mono: "status_rank S \<le> status_rank (fst (rule_gust x (S, R)))"
  by (cases S) simp_all

lemma resolve_status_mono:
  "status_rank (initial_status score)
     \<le> status_rank (fst (resolve_status score b rain a3 a6 wind gust R))"
proof -
  obtain S1 R1 where 1: "rule_bmkg b (initial_status score, R) = (S1, R1)" by force
  obtain S2 R2 where 2: "rule_rain rain (S1, R1) = (S2, R2)" by force
  obtain S3 R3 where 3: "rule_acc a3 a6 (S2, R2) = (S3, R3)" by force
  obtain S4 R4 where 4: "rule_wind wind (S3, R3) = (S4, R4)" by force
  obtain S5 R5 where 5: "rule_gust gust (S4, R4) = (S5, R5)" by force
  have "status_rank (initial_status score) \<le> status_rank S1"
    by (metis 1 fst_conv rule_bmkg_mono)
  also have "\<dots> \<le> status_rank S2" by (metis 2 fst_conv rule_rain_mono)
  also have "\<dots> \<le> status_rank S3" by (metis 3 fst_conv rule_acc_mono)
  also have "\<dots> \<le> status_rank S4" by (metis 4 fst_conv rule_wind_mono)
  also have "\<dots> \<le> status_rank S5" by (metis 5 fst_conv rule_gust_mono)
  finally show ?thesis unfolding resolve_status_def 1 2 3 4 5 by simp
qed

lemma resolve_status_wind_danger:
  assumes "wind \<ge> 25"
  shows "fst (resolve_status score b rain a3 a6 wind gust R) = Rawan"
proof -
  obtain S3 R3 where 3:
    "rule_acc a3 a6 (rule_rain rain (rule_bmkg b (initial_status score, R))) = (S3, R3)"
    by force
  show ?thesis unfolding resolve_status_def 3 using assms by simp
qed

text \<open>
  C1: the initial status is Rawan from score 7, Waspada from score 4, else Aman. With the
  order Aman < Waspada < Rawan, none of the five override rules lowers the status it is
  given, the final status of the chain is at least the initial one, and so is the final
  status of every processed hour. A sustained wind of 26 km/h gives Rawan, with score 0
  in particular.
\<close>

theorem status_only_upgrades:
  "initial_status score = (if score \<ge> 7 then Rawan else if score \<ge> 4 then Waspada else Aman)
   \<and> status_rank Aman < status_rank Waspada \<and> status_rank Waspada < status_rank Rawan
   \<and> status_rank S \<le> status_rank (fst (rule_bmkg b (S, R)))
   \<and> status_rank S \<le> status_rank (fst (rule_rain rain (S, R)))
   \<and> status_rank S \<le> status_rank (fst (rule_acc a3 a6 (S, R)))
   \<and> status_rank S \<le> status_rank (fst (rule_wind wind (S, R)))
   \<and> status_rank S \<le> status_rank (fst (rule_gust gust (S, R)))
   \<and> status_rank (initial_status score)
        \<le> status_rank (fst (resolve_status score b rain a3 a6 wind gust R))
   \<and> fst (resolve_status 0 b rain a3 a6 26 gust R) = Rawan
   \<and> (process_hour tf ps L D TIME idx st = Some (r, st') \<longrightarrow>
        status_rank (initial_status (h_score r)) \<le> status_rank (h_STATUS r)
        \<and> (at_or_zero (wind_arr D) idx = JNum 26 \<longrightarrow> h_STATUS r = Rawan))"
proof -
  have hour: "status_rank (initial_status (h_score r)) \<le> status_rank (h_STATUS r)
      \<and> (at_or_zero (wind_arr D) idx = JNum 26 \<longrightarrow> h_STATUS r = Rawan)"
    if "process_hour tf ps L D TIME idx st = Some (r, st')"
  proof -
    from process_hour_locals [OF that] obtain rain' wind' gust' scored where
      w: "py_float (at_or_zero (wind_arr D) idx) = Some wind'" and
      sc: "h_score r = fst scored" and
      stt: "h_STATUS r = fst (resolve_status (fst scored) (loc_bmk_hit L) rain'
          (acc3 (length (times_jq D)) (prec_arr D) idx)
          (acc6 (length (times_jq D)) (prec_arr D) idx) wind' gust' (snd scored))"
      by blast
    have a: "status_rank (initial_status (h_score r)) \<le> status_rank (h_STATUS r)"
      unfolding sc stt by (rule resolve_status_mono)
    have b: "h_STATUS r = Rawan" if "at_or_zero (wind_arr D) idx = JNum 26"
    proof -
      from that w have "wind' = 26" by simp
      then show ?thesis unfolding stt by (simp add: resolve_status_wind_danger)
    qed
    from a b show ?thesis by blast
  qed
  have wind26: "fst (resolve_status 0 b rain a3 a6 26 gust R) = Rawan"
    by (rule resolve_status_wind_danger) simp
  show ?thesis
    using hour wind26 rule_bmkg_mono [of S b R] rule_rain_mono [of S rain R]
      rule_acc_mono [of S a3 a6 R] rule_wind_mono [of S wind R] rule_gust_mono [of S gust R]
      resolve_status_mono [of score b rain a3 a6 wind gust R]
    by (simp add: initial_status_def del: rule_bmkg.simps rule_rain.simps rule_acc.simps
          rule_wind.simps rule_gust.simps)
qed

theorem status_only_upgrades_witness:
  "\<exists>r st'.
     process_hour (\<lambda>s. None) (\<lambda>v. [])
       \<lparr>loc_name = ''Bogor'', loc_latlon = ''-6.5971,106.8060'', loc_DATA = None, loc_ens = [],
        loc_bmk_hit = False\<rparr>
       \<lparr>times_jq = [10], temp_arr = [JNum 20], pop_arr = [JNum 0], prec_arr = [JNum 0],
        hum_arr = [JNum 50], wind_arr = [JNum 26], gust_arr = [JNum 0], uv_arr = [JNum 0]\<rparr>
       10 0 (initial_state []) = Some (r, st')
     \<and> status_rank (initial_status (h_score r)) \<le> status_rank (h_STATUS r)
     \<and> h_STATUS r = Rawan"
proof -
  let ?L = "\<lparr>loc_name = ''Bogor'', loc_latlon = ''-6.5971,106.8060'', loc_DATA = None,
        loc_ens = [], loc_bmk_hit = False\<rparr>"
  let ?D = "\<lparr>times_jq = [10], temp_arr = [JNum 20], pop_arr = [JNum 0], prec_arr = [JNum 0],
        hum_arr = [JNum 50], wind_arr = [JNum 26], gust_arr = [JNum 0], uv_arr = [JNum 0]\<rparr>"
  obtain r st' where
    h: "process_hour (\<lambda>s. None) (\<lambda>v. []) ?L ?D 10 0 (initial_state []) = Some (r, st')"
    using process_hour_total [of ?D 0 20 0 0 50 26 0 0 "\<lambda>s. None" "\<lambda>v. []" ?L 10 "initial_state []"]
    by (auto simp: at_or_zero_def)
  have w: "at_or_zero (wind_arr ?D) 0 = JNum 26" by (simp add: at_or_zero_def)
  from status_only_upgrades [of _ _ _ _ _ _ _ _ _ "\<lambda>s. None" "\<lambda>v. []" ?L ?D 10 0
      "initial_state []" r st'] h w
  have "status_rank (initial_status (h_score r)) \<le> status_rank (h_STATUS r)
     \<and> h_STATUS r = Rawan"
    by blast
  with h show ?thesis by blast
qed

section \<open>Risk score\<close>

lemma upt_to_6: "[0..<6] = [0, 1, 2, 3, 4, 5 :: nat]"
  by code_simp

lemma resolve_status_example:
  "fst (resolve_status 4 False 0 0 0 20 10 R) = Waspada"
  by (simp add: resolve_status_def initial_status_def)

text \<open>
  C2: on numeric inputs the score is 0 plus, in this order, 2 for humidity above 80, 1 for
  a temperature in [27,34], 2 when a prior temperature exists and lies at least 2.0 above
  the current one, 1 for a wind speed in [10,25], 1 for a gust above 25, 2 for an hour in
  [8,16] with UV at least 7, 2 for a probability of at least 70 or else 1 for at least 50,
  3 for rain of at least 1.0 mm or else 1 for at least 0.3 mm; the reason tokens are
  appended in the same order. The prior temperature is the number read from the looked-up
  text, when the lookup gives a non-empty text that parses. The hour with humidity 85,
  temperature 30, wind 20, gust 10, UV 3, hour 10, probability 40, rain 0 and no prior
  temperature is processed, scores 4 and ends Waspada.
\<close>

theorem risk_score_contributions:
  assumes "prior = (case prev of None \<Rightarrow> None | Some p \<Rightarrow> if p = [] then None else tf p)"
  shows "risk_score tf prev (JNum hum) (JNum temp) (JNum wind) (JNum gust) HOUR (JNum uv)
           (JNum prob) (JNum rain) R =
         Some (0 + (if hum > 80 then 2 else 0)
                 + (if 27 \<le> temp \<and> temp \<le> 34 then 1 else 0)
                 + (case prior of Some p \<Rightarrow> if p - temp \<ge> 2 then 2 else 0 | None \<Rightarrow> 0)
                 + (if 10 \<le> wind \<and> wind \<le> 25 then 1 else 0)
                 + (if gust > 25 then 1 else 0)
                 + (if (8 \<le> HOUR \<and> HOUR \<le> 16) \<and> uv \<ge> 7 then 2 else 0)
                 + (if prob \<ge> 70 then 2 else if prob \<ge> 50 then 1 else 0)
                 + (if rain \<ge> 1 then 3 else if rain \<ge> 3 / 10 then 1 else 0),
               ((((((((R @ (if hum > 80 then [''humid''] else []))
                 @ (if 27 \<le> temp \<and> temp \<le> 34 then [''temp_ok''] else []))
                 @ (case prior of Some p \<Rightarrow> if p - temp \<ge> 2 then [''temp_drop''] else []
                    | None \<Rightarrow> []))
                 @ (if 10 \<le> wind \<and> wind \<le> 25 then [''wind_ok''] else []))
                 @ (if gust > 25 then [''gust''] else []))
                 @ (if (8 \<le> HOUR \<and> HOUR \<le> 16) \<and> uv \<ge> 7 then [''uv_high''] else []))
                 @ (if prob \<ge> 70 then [''prob>=70''] else if prob \<ge> 50 then [''prob>=50''] else []))
                 @ (if rain \<ge> 1 then [''rained_now'']
                    else if rain \<ge> 3 / 10 then [''drizzle''] else [])))
       \<and> (\<exists>r st'.
            process_hour tf ps (L\<lparr>loc_bmk_hit := False\<rparr>)
              \<lparr>times_jq = [10], temp_arr = [JNum 30], pop_arr = [JNum 40], prec_arr = [JNum 0],
               hum_arr = [JNum 85], wind_arr = [JNum 20], gust_arr = [JNum 10],
               uv_arr = [JNum 3]\<rparr>
              10 0 (st\<lparr>PREV_TEMP := []\<rparr>) = Some (r, st')
            \<and> h_score r = 4 \<and> h_STATUS r = Waspada)"
proof -
  let ?L = "L\<lparr>loc_bmk_hit := False\<rparr>"
  let ?D = "\<lparr>times_jq = [10], temp_arr = [JNum 30], pop_arr = [JNum 40], prec_arr = [JNum 0],
               hum_arr = [JNum 85], wind_arr = [JNum 20], gust_arr = [JNum 10],
               uv_arr = [JNum 3]\<rparr>"
  let ?st = "st\<lparr>PREV_TEMP := []\<rparr>"
  have vals: "at_or_zero (temp_arr ?D) 0 = JNum 30" "at_or_zero (pop_arr ?D) 0 = JNum 40"
    "at_or_zero (prec_arr ?D) 0 = JNum 0" "at_or_zero (hum_arr ?D) 0 = JNum 85"
    "at_or_zero (wind_arr ?D) 0 = JNum 20" "at_or_zero (gust_arr ?D) 0 = JNum 10"
    "at_or_zero (uv_arr ?D) 0 = JNum 3"
    by (simp_all add: at_or_zero_def)
  obtain r st' where h: "process_hour tf ps ?L ?D 10 0 ?st = Some (r, st')"
    using process_hour_total [OF vals] by blast
  have accs: "acc3 (length (times_jq ?D)) (prec_arr ?D) 0 = 0"
    "acc6 (length (times_jq ?D)) (prec_arr ?D) 0 = 0"
    by (simp_all add: acc3_def acc6_def window_floats_def float_at_def upt_to_6)
  have noprev: "lookup_prev_temp_for (loc_name ?L) (loc_latlon ?L) (PREV_TEMP ?st) = None"
    by (simp add: lookup_prev_temp_for_def)
  from process_hour_locals [OF h] obtain scored where
    rs: "risk_score tf None (JNum 85) (JNum 30) (JNum 20) (JNum 10) (hour_of 10) (JNum 3)
           (JNum 40) (JNum 0)
           (sky_token (h_SKY_LABEL r) # snd (record_rain_cat (loc_name ?L) 10 (h_rain_cat r) ?st))
         = Some scored" and
    sc: "h_score r = fst scored" and
    stt: "h_STATUS r = fst (resolve_status (fst scored) False 0 0 0 20 10 (snd scored))"
    unfolding vals accs noprev by auto
  have "fst scored = 4"
    using rs unfolding risk_score_closed_form [where prior = None and prev = None, simplified]
    by (auto simp: hour_of_def)
  then have ex: "h_score r = 4 \<and> h_STATUS r = Waspada"
    unfolding sc stt by (simp add: resolve_status_example)
  from risk_score_closed_form [OF assms] h ex show ?thesis by blast
qed

theorem risk_score_contributions_witness:
  "risk_score (\<lambda>s. None) None (JNum 85) (JNum 30) (JNum 20) (JNum 10) 10 (JNum 3)
     (JNum 40) (JNum 0) [] = Some (4, [''humid'', ''temp_ok'', ''wind_ok''])"
  using risk_score_contributions [where prior = None and prev = None and tf = "\<lambda>s. None"
      and hum = 85 and temp = 30 and wind = 20 and gust = 10 and HOUR = 10 and uv = 3
      and prob = 40 and rain = 0 and R = "[]"]
  by simp

section \<open>Deviation of the deterministic window\<close>

lemma map_filter_snoc:
  "List.map_filter f (xs @ [x]) =
     List.map_filter f xs @ (case f x of None \<Rightarrow> [] | Some y \<Rightarrow> [y])"
  by (induction xs) (simp_all split: option.splits)

lemma window_floats_upt:
  "window_floats LEN arr idx [0..<k] =
     List.map_filter py_float (take k (drop idx (take LEN arr)))"
proof (induction k)
  case 0
  show ?case by (simp add: window_floats_def)
next
  case (Suc k)
  let ?xs = "drop idx (take LEN arr)"
  have step: "window_floats LEN arr idx [0..<Suc k] =
      window_floats LEN arr idx [0..<k] @
        (case (if idx + k < LEN then float_at arr (idx + k) else None) of
           None \<Rightarrow> [] | Some y \<Rightarrow> [y])"
    by (simp add: window_floats_def map_filter_snoc)
  show ?case
  proof (cases "k < length ?xs")
    case True
    then have in_range: "idx + k < LEN" "idx + k < length arr" by auto
    have nth: "?xs ! k = arr ! (idx + k)" using in_range by simp
    have "take (Suc k) ?xs = take k ?xs @ [arr ! (idx + k)]"
      using True nth by (simp add: take_Suc_conv_app_nth)
    then show ?thesis
      using in_range Suc step by (simp add: map_filter_snoc float_at_def)
  next
    case False
    then have out: "\<not> (idx + k < LEN \<and> idx + k < length arr)" by auto
    have "take (Suc k) ?xs = take k ?xs" using False by simp
    then show ?thesis
      using out Suc step by (auto simp: float_at_def)
  qed
qed

lemma upt_to_3: "[0, 1, 2] = [0..<3::nat]"
  by code_simp

lemma window_floats_clipped:
  "window_floats LEN arr idx [0, 1, 2] =
     List.map_filter py_float (take 3 (drop idx (take LEN arr)))"
  unfolding upt_to_3 by (rule window_floats_upt)

lemma window_example:
  "window_floats 3 [JNum 0, JNum 0, JNum 6] 0 [0, 1, 2] = [0, 0, 6]"
  by (simp add: window_floats_def float_at_def)

lemma pstdev_example: "pstdev [0, 0, 6] = sqrt 8"
  by (simp add: pstdev_def pvariance_def mean_def power2_eq_square)

lemma sqrt_8_bounds: "2828 / 1000 < sqrt 8 \<and> sqrt 8 < 2829 / 1000"
proof
  show "2828 / 1000 < sqrt 8"
    by (rule real_less_rsqrt) (simp add: power2_eq_square)
  show "sqrt 8 < 2829 / 1000"
    by (rule real_less_lsqrt) (simp_all add: power2_eq_square)
qed

lemma dev_mm_example: "dev_mm 3 [JNum 0, JNum 0, JNum 6] 0 = sqrt 8"
  unfolding dev_mm_def window_example Let_def by (simp add: pstdev_example)

text \<open>
  C5: the values of the deterministic window are the numbers among the entries t, t+1, t+2
  of the rain series, the series being cut at the length of the time axis. The deviation is
  their population standard deviation, the square root of the squared distances from the
  mean summed and divided by the number of values, when there are at least two values, and
  0 otherwise. A deviation below 0.7 is of level NONE, one from 0.7 and below 1.0 of level
  WARN, one from 1.0 of level DANGER. The window 0, 0, 6 has deviation \<open>sqrt 8\<close>, which
  lies between 2.828 and 2.829, and is of level DANGER.
\<close>

theorem dev_mm_population_stddev:
  "window_floats LEN arr idx [0, 1, 2] =
     List.map_filter py_float (take 3 (drop idx (take LEN arr)))
   \<and> dev_mm LEN arr idx =
       (if length (window_floats LEN arr idx [0, 1, 2]) \<ge> 2
        then pstdev (window_floats LEN arr idx [0, 1, 2]) else 0)
   \<and> pstdev xs =
       sqrt ((\<Sum>x\<leftarrow>xs. (x - sum_list xs / real (length xs))\<^sup>2) / real (length xs))
   \<and> dev_level_of d =
       (if d < 7 / 10 then DEV_NONE else if d < 1 then DEV_WARN else DEV_DANGER)
   \<and> dev_mm 3 [JNum 0, JNum 0, JNum 6] 0 = sqrt 8
   \<and> 2828 / 1000 < dev_mm 3 [JNum 0, JNum 0, JNum 6] 0
   \<and> dev_mm 3 [JNum 0, JNum 0, JNum 6] 0 < 2829 / 1000
   \<and> dev_level_of (dev_mm 3 [JNum 0, JNum 0, JNum 6] 0) = DEV_DANGER"
proof -
  note ex = dev_mm_example
  have lvl: "dev_level_of (sqrt 8) = DEV_DANGER"
    using sqrt_8_bounds by (simp add: dev_level_of_def)
  have a: "dev_mm LEN arr idx =
       (if length (window_floats LEN arr idx [0, 1, 2]) \<ge> 2
        then pstdev (window_floats LEN arr idx [0, 1, 2]) else 0)"
    by (simp add: dev_mm_def Let_def)
  have b: "pstdev xs =
       sqrt ((\<Sum>x\<leftarrow>xs. (x - sum_list xs / real (length xs))\<^sup>2) / real (length xs))"
    by (simp add: pstdev_def pvariance_def mean_def)
  have c: "dev_level_of d =
       (if d < 7 / 10 then DEV_NONE else if d < 1 then DEV_WARN else DEV_DANGER)"
    by (simp add: dev_level_of_def)
  show ?thesis
    unfolding ex lvl using window_floats_clipped [of LEN arr idx] a b c sqrt_8_bounds
    by blast
qed

theorem dev_mm_population_stddev_witness:
  "dev_mm 2 [JNum 1, JNum 3, JNum 100] 0 = pstdev [1, 3]
   \<and> pstdev [1, 3] = 1
   \<and> dev_level_of (dev_mm 2 [JNum 1, JNum 3, JNum 100] 0) = DEV_DANGER"
proof -
  have w: "window_floats 2 [JNum 1, JNum 3, JNum 100] 0 [0, 1, 2] = [1, 3]"
    using dev_mm_population_stddev [of 2 "[JNum 1, JNum 3, JNum 100]" 0 "[]" 0]
    by simp
  have d: "dev_mm 2 [JNum 1, JNum 3, JNum 100] 0 = pstdev [1, 3]"
    using dev_mm_population_stddev [of 2 "[JNum 1, JNum 3, JNum 100]" 0 "[]" 0]
    unfolding w by simp
  have p: "pstdev [1, 3] = 1"
    using dev_mm_population_stddev [of 0 "[]" 0 "[1, 3]" 0]
    by (simp add: power2_eq_square)
  have l: "dev_level_of 1 = DEV_DANGER"
    using dev_mm_population_stddev [of 0 "[]" 0 "[]" 1] by simp
  show ?thesis unfolding d p using l by simp
qed

section \<open>Deviation flags and rain categories of an hour\<close>

lemma count_status_other_fields:
  "AGG_DEV_WARN (count_status T S st) = AGG_DEV_WARN st"
  "AGG_DEV_DANGER (count_status T S st) = AGG_DEV_DANGER st"
  "PERKOTA_DEV_WARN (count_status T S st) = PERKOTA_DEV_WARN st"
  "PERKOTA_DEV_DANGER (count_status T S st) = PERKOTA_DEV_DANGER st"
  "AGG_RAIN_GERIMIS (count_status T S st) = AGG_RAIN_GERIMIS st"
  "AGG_RAIN_RINGAN (count_status T S st) = AGG_RAIN_RINGAN st"
  "AGG_RAIN_SEDANG (count_status T S st) = AGG_RAIN_SEDANG st"
  "AGG_RAIN_DERAS (count_status T S st) = AGG_RAIN_DERAS st"
  "PERKOTA_RAIN_GERIMIS (count_status T S st) = PERKOTA_RAIN_GERIMIS st"
  "PERKOTA_RAIN_RINGAN (count_status T S st) = PERKOTA_RAIN_RINGAN st"
  "PERKOTA_RAIN_SEDANG (count_status T S st) = PERKOTA_RAIN_SEDANG st"
  "PERKOTA_RAIN_DERAS (count_status T S st) = PERKOTA_RAIN_DERAS st"
  "processed_count (count_status T S st) = processed_count st"
  by (simp_all add: count_status_def Let_def)

lemma flag_dev_other_fields:
  "AGG_AMAN (flag_dev K T d st) = AGG_AMAN st"
  "AGG_WASP (flag_dev K T d st) = AGG_WASP st"
  "AGG_RAWAN (flag_dev K T d st) = AGG_RAWAN st"
  "AGG_RAIN_GERIMIS (flag_dev K T d st) = AGG_RAIN_GERIMIS st"
  "AGG_RAIN_RINGAN (flag_dev K T d st) = AGG_RAIN_RINGAN st"
  "AGG_RAIN_SEDANG (flag_dev K T d st) = AGG_RAIN_SEDANG st"
  "AGG_RAIN_DERAS (flag_dev K T d st) = AGG_RAIN_DERAS st"
  "PERKOTA_RAIN_GERIMIS (flag_dev K T d st) = PERKOTA_RAIN_GERIMIS st"
  "PERKOTA_RAIN_RINGAN (flag_dev K T d st) = PERKOTA_RAIN_RINGAN st"
  "PERKOTA_RAIN_SEDANG (flag_dev K T d st) = PERKOTA_RAIN_SEDANG st"
  "PERKOTA_RAIN_DERAS (flag_dev K T d st) = PERKOTA_RAIN_DERAS st"
  "processed_count (flag_dev K T d st) = processed_count st"
  by (simp_all add: flag_dev_def split: dev_level.splits)

lemma record_rain_cat_other_fields:
  "AGG_AMAN (fst (record_rain_cat K T c st)) = AGG_AMAN st"
  "AGG_WASP (fst (record_rain_cat K T c st)) = AGG_WASP st"
  "AGG_RAWAN (fst (record_rain_cat K T c st)) = AGG_RAWAN st"
  "AGG_DEV_WARN (fst (record_rain_cat K T c st)) = AGG_DEV_WARN st"
  "AGG_DEV_DANGER (fst (record_rain_cat K T c st)) = AGG_DEV_DANGER st"
  "PERKOTA_DEV_WARN (fst (record_rain_cat K T c st)) = PERKOTA_DEV_WARN st"
  "PERKOTA_DEV_DANGER (fst (record_rain_cat K T c st)) = PERKOTA_DEV_DANGER st"
  "processed_count (fst (record_rain_cat K T c st)) = processed_count st"
  by (cases c; simp add: record_rain_cat_def)+

lemma flag_dev_danger:
  assumes "d \<ge> 1"
  shows "AGG_DEV_DANGER (flag_dev K T d st) = (AGG_DEV_DANGER st)(T := AGG_DEV_DANGER st T + 1)"
    and "PERKOTA_DEV_DANGER (flag_dev K T d st) =
           (PERKOTA_DEV_DANGER st)(K := PERKOTA_DEV_DANGER st K @ [T])"
    and "AGG_DEV_WARN (flag_dev K T d st) = AGG_DEV_WARN st"
    and "PERKOTA_DEV_WARN (flag_dev K T d st) = PERKOTA_DEV_WARN st"
  using assms by (simp_all add: flag_dev_def dev_level_of_def)

lemma flag_dev_warn:
  assumes "7 / 10 \<le> d" "d < 1"
  shows "AGG_DEV_WARN (flag_dev K T d st) = (AGG_DEV_WARN st)(T := AGG_DEV_WARN st T + 1)"
    and "PERKOTA_DEV_WARN (flag_dev K T d st) =
           (PERKOTA_DEV_WARN st)(K := PERKOTA_DEV_WARN st K @ [T])"
    and "AGG_DEV_DANGER (flag_dev K T d st) = AGG_DEV_DANGER st"
    and "PERKOTA_DEV_DANGER (flag_dev K T d st) = PERKOTA_DEV_DANGER st"
  using assms by (simp_all add: flag_dev_def dev_level_of_def)

text \<open>
  C6: in a processed hour the two deviations are those of the deterministic window and of
  the ensemble. When both are at least 1.0 the slot's deviation-danger count grows by 2
  and the slot is appended twice to the location's deviation-danger list; when both are
  at least 0.7 and below 1.0 the same holds for the deviation-warn count and list.
\<close>

theorem deviation_flags_added_twice:
  assumes "process_hour tf ps L D TIME idx st = Some (r, st')"
  shows "h_dev_mm r = dev_mm (length (times_jq D)) (prec_arr D) idx
    \<and> h_dev_ens_3hr r = dev_ens_3hr (ensemble_members (loc_ens L)) idx
    \<and> (h_dev_mm r \<ge> 1 \<and> h_dev_ens_3hr r \<ge> 1 \<longrightarrow>
         AGG_DEV_DANGER st' TIME = AGG_DEV_DANGER st TIME + 2
         \<and> PERKOTA_DEV_DANGER st' (loc_name L) = PERKOTA_DEV_DANGER st (loc_name L) @ [TIME, TIME])
    \<and> (7 / 10 \<le> h_dev_mm r \<and> h_dev_mm r < 1 \<and> 7 / 10 \<le> h_dev_ens_3hr r \<and> h_dev_ens_3hr r < 1 \<longrightarrow>
         AGG_DEV_WARN st' TIME = AGG_DEV_WARN st TIME + 2
         \<and> PERKOTA_DEV_WARN st' (loc_name L) = PERKOTA_DEV_WARN st (loc_name L) @ [TIME, TIME])"
proof -
  let ?K = "loc_name L"
  let ?st1 = "fst (record_rain_cat ?K TIME (h_rain_cat r) st)"
  let ?d = "h_dev_mm r" and ?e = "h_dev_ens_3hr r"
  have danger: "AGG_DEV_DANGER st' = AGG_DEV_DANGER (flag_dev ?K TIME ?e (flag_dev ?K TIME ?d ?st1))"
    and pdanger: "PERKOTA_DEV_DANGER st' = PERKOTA_DEV_DANGER (flag_dev ?K TIME ?e (flag_dev ?K TIME ?d ?st1))"
    and warn: "AGG_DEV_WARN st' = AGG_DEV_WARN (flag_dev ?K TIME ?e (flag_dev ?K TIME ?d ?st1))"
    and pwarn: "PERKOTA_DEV_WARN st' = PERKOTA_DEV_WARN (flag_dev ?K TIME ?e (flag_dev ?K TIME ?d ?st1))"
    by (subst process_hour_state [OF assms], simp add: count_status_other_fields)+
  have both_danger: "AGG_DEV_DANGER st' TIME = AGG_DEV_DANGER st TIME + 2
      \<and> PERKOTA_DEV_DANGER st' ?K = PERKOTA_DEV_DANGER st ?K @ [TIME, TIME]"
    if "?d \<ge> 1" "?e \<ge> 1"
    unfolding danger pdanger
    by (simp add: flag_dev_danger [OF that(1)] flag_dev_danger [OF that(2)]
          record_rain_cat_other_fields)
  have both_warn: "AGG_DEV_WARN st' TIME = AGG_DEV_WARN st TIME + 2
      \<and> PERKOTA_DEV_WARN st' ?K = PERKOTA_DEV_WARN st ?K @ [TIME, TIME]"
    if "7 / 10 \<le> ?d" "?d < 1" "7 / 10 \<le> ?e" "?e < 1"
    unfolding warn pwarn
    by (simp add: flag_dev_warn [OF that(1,2)] flag_dev_warn [OF that(3,4)]
          record_rain_cat_other_fields)
  from process_hour_locals [OF assms] have
    "?d = dev_mm (length (times_jq D)) (prec_arr D) idx"
    "?e = dev_ens_3hr (ensemble_members (loc_ens L)) idx"
    by auto
  then show ?thesis using both_danger both_warn by blast
qed

lemma sqrt_in_warn_range:
  assumes "49 / 100 \<le> v" "v < 1"
  shows "7 / 10 \<le> sqrt v" "sqrt v < 1"
proof -
  show "7 / 10 \<le> sqrt v"
    by (rule real_le_rsqrt) (use assms in \<open>simp add: power2_eq_square\<close>)
  show "sqrt v < 1"
    by (rule real_less_lsqrt) (use assms in simp_all)
qed

theorem deviation_flags_added_twice_witness:
  "(\<exists>r st'.
      process_hour (\<lambda>s. None) (\<lambda>v. [])
        \<lparr>loc_name = ''Bogor'', loc_latlon = ''-6.5971,106.8060'', loc_DATA = None,
         loc_ens = [[JNum 0, JNum 0, JNum 0], [JNum 6, JNum 0, JNum 0]], loc_bmk_hit = False\<rparr>
        \<lparr>times_jq = [10, 11, 12], temp_arr = [], pop_arr = [],
         prec_arr = [JNum 0, JNum 0, JNum 6],
         hum_arr = [], wind_arr = [], gust_arr = [], uv_arr = []\<rparr>
        10 0 (initial_state []) = Some (r, st')
      \<and> h_dev_mm r \<ge> 1 \<and> h_dev_ens_3hr r \<ge> 1
      \<and> AGG_DEV_DANGER st' 10 = 2 \<and> PERKOTA_DEV_DANGER st' ''Bogor'' = [10, 10])
   \<and> (\<exists>r st'.
      process_hour (\<lambda>s. None) (\<lambda>v. [])
        \<lparr>loc_name = ''Bogor'', loc_latlon = ''-6.5971,106.8060'', loc_DATA = None,
         loc_ens = [[JNum 0, JNum 0, JNum 0], [JNum (16 / 10), JNum 0, JNum 0]],
         loc_bmk_hit = False\<rparr>
        \<lparr>times_jq = [10, 11, 12], temp_arr = [], pop_arr = [],
         prec_arr = [JNum 0, JNum 0, JNum 2],
         hum_arr = [], wind_arr = [], gust_arr = [], uv_arr = []\<rparr>
        10 0 (initial_state []) = Some (r, st')
      \<and> 7 / 10 \<le> h_dev_mm r \<and> h_dev_mm r < 1 \<and> 7 / 10 \<le> h_dev_ens_3hr r \<and> h_dev_ens_3hr r < 1
      \<and> AGG_DEV_WARN st' 10 = 2 \<and> PERKOTA_DEV_WARN st' ''Bogor'' = [10, 10])"
proof
  let ?L = "\<lparr>loc_name = ''Bogor'', loc_latlon = ''-6.5971,106.8060'', loc_DATA = None,
         loc_ens = [[JNum 0, JNum 0, JNum 0], [JNum 6, JNum 0, JNum 0]], loc_bmk_hit = False\<rparr>"
  let ?D = "\<lparr>times_jq = [10, 11, 12], temp_arr = [], pop_arr = [],
         prec_arr = [JNum 0, JNum 0, JNum 6],
         hum_arr = [], wind_arr = [], gust_arr = [], uv_arr = []\<rparr>"
  have vals: "at_or_zero (temp_arr ?D) 0 = JNum 0" "at_or_zero (pop_arr ?D) 0 = JNum 0"
    "at_or_zero (prec_arr ?D) 0 = JNum 0" "at_or_zero (hum_arr ?D) 0 = JNum 0"
    "at_or_zero (wind_arr ?D) 0 = JNum 0" "at_or_zero (gust_arr ?D) 0 = JNum 0"
    "at_or_zero (uv_arr ?D) 0 = JNum 0"
    by (simp_all add: at_or_zero_def)
  obtain r st' where
    h: "process_hour (\<lambda>s. None) (\<lambda>v. []) ?L ?D 10 0 (initial_state []) = Some (r, st')"
    using process_hour_total [OF vals] by blast
  note t = deviation_flags_added_twice [OF h]
  have d: "h_dev_mm r = sqrt 8"
    using t by (simp add: dev_mm_def window_floats_def float_at_def pstdev_def
        pvariance_def mean_def power2_eq_square)
  have e: "h_dev_ens_3hr r = 3"
    using t by (simp add: dev_ens_3hr_def ensemble_members_def member_sum_def pstdev_def
        pvariance_def mean_def power2_eq_square)
  have d1: "h_dev_mm r \<ge> 1" unfolding d by simp
  have e1: "h_dev_ens_3hr r \<ge> 1" unfolding e by simp
  from t d1 e1 have "AGG_DEV_DANGER st' 10 = 2 \<and> PERKOTA_DEV_DANGER st' ''Bogor'' = [10, 10]"
    by (simp add: initial_state_def)
  with h d1 e1 show "\<exists>r st'.
      process_hour (\<lambda>s. None) (\<lambda>v. []) ?L ?D 10 0 (initial_state []) = Some (r, st')
      \<and> h_dev_mm r \<ge> 1 \<and> h_dev_ens_3hr r \<ge> 1
      \<and> AGG_DEV_DANGER st' 10 = 2 \<and> PERKOTA_DEV_DANGER st' ''Bogor'' = [10, 10]"
    by blast
next
  let ?L = "\<lparr>loc_name = ''Bogor'', loc_latlon = ''-6.5971,106.8060'', loc_DATA = None,
         loc_ens = [[JNum 0, JNum 0, JNum 0], [JNum (16 / 10), JNum 0, JNum 0]],
         loc_bmk_hit = False\<rparr>"
  let ?D = "\<lparr>times_jq = [10, 11, 12], temp_arr = [], pop_arr = [],
         prec_arr = [JNum 0, JNum 0, JNum 2],
         hum_arr = [], wind_arr = [], gust_arr = [], uv_arr = []\<rparr>"
  have vals: "at_or_zero (temp_arr ?D) 0 = JNum 0" "at_or_zero (pop_arr ?D) 0 = JNum 0"
    "at_or_zero (prec_arr ?D) 0 = JNum 0" "at_or_zero (hum_arr ?D) 0 = JNum 0"
    "at_or_zero (wind_arr ?D) 0 = JNum 0" "at_or_zero (gust_arr ?D) 0 = JNum 0"
    "at_or_zero (uv_arr ?D) 0 = JNum 0"
    by (simp_all add: at_or_zero_def)
  obtain r st' where
    h: "process_hour (\<lambda>s. None) (\<lambda>v. []) ?L ?D 10 0 (initial_state []) = Some (r, st')"
    using process_hour_total [OF vals] by blast
  note t = deviation_flags_added_twice [OF h]
  have d: "h_dev_mm r = sqrt (8 / 9)"
    using t by (simp add: dev_mm_def window_floats_def float_at_def pstdev_def
        pvariance_def mean_def power2_eq_square)
  have e: "h_dev_ens_3hr r = sqrt (64 / 100)"
    using t by (simp add: dev_ens_3hr_def ensemble_members_def member_sum_def pstdev_def
        pvariance_def mean_def power2_eq_square)
  have d1: "7 / 10 \<le> h_dev_mm r" "h_dev_mm r < 1"
    unfolding d by (rule sqrt_in_warn_range; simp)+
  have e1: "7 / 10 \<le> h_dev_ens_3hr r" "h_dev_ens_3hr r < 1"
    unfolding e by (rule sqrt_in_warn_range; simp)+
  from t d1 e1 have "AGG_DEV_WARN st' 10 = 2 \<and> PERKOTA_DEV_WARN st' ''Bogor'' = [10, 10]"
    by (simp add: initial_state_def)
  with h d1 e1 show "\<exists>r st'.
      process_hour (\<lambda>s. None) (\<lambda>v. []) ?L ?D 10 0 (initial_state []) = Some (r, st')
      \<and> 7 / 10 \<le> h_dev_mm r \<and> h_dev_mm r < 1 \<and> 7 / 10 \<le> h_dev_ens_3hr r \<and> h_dev_ens_3hr r < 1
      \<and> AGG_DEV_WARN st' 10 = 2 \<and> PERKOTA_DEV_WARN st' ''Bogor'' = [10, 10]"
    by blast
qed

section \<open>Rain category of an hour\<close>

lemma add_if_keeps: "set (snd sr) \<subseteq> set (snd (add_if c n tok sr))"
  by (cases sr) auto

lemma bind_const_None: "Option.bind m (\<lambda>x. None) = None"
  by (cases m) simp_all

lemma risk_score_null:
  "risk_score tf prev JNull b c d H u p rn R = None"
  "risk_score tf prev a JNull c d H u p rn R = None"
  "risk_score tf prev a b JNull d H u p rn R = None"
  "risk_score tf prev a b c JNull H u p rn R = None"
  "risk_score tf prev a b c d H u JNull rn R = None"
  "risk_score tf prev a b c d H u p JNull R = None"
  "8 \<le> H \<and> H \<le> 16 \<Longrightarrow> risk_score tf prev a b c d H JNull p rn R = None"
  unfolding risk_score_def Let_def
  by (simp_all add: bind_const_None)

lemma risk_score_uv_unused:
  assumes "\<not> (8 \<le> H \<and> H \<le> 16)"
  shows "risk_score tf prev a b c d H u p rn R = risk_score tf prev a b c d H (JNum 0) p rn R"
proof -
  have e: "(8 \<le> H \<and> H \<le> 16) = False" using assms by simp
  show ?thesis unfolding risk_score_def Let_def e by simp
qed

lemma risk_score_numeric_ext:
  "\<exists>n ext. risk_score tf prev (JNum hum) (JNum temp) (JNum wind) (JNum gust) HOUR (JNum uv)
           (JNum prob) (JNum rain) R = Some (n, R @ ext)"
  unfolding risk_score_closed_form [OF refl] append_assoc by blast

lemma risk_score_keeps_reasons:
  assumes "risk_score tf prev a b c d H u p rn R = Some scored"
  shows "set R \<subseteq> set (snd scored)"
proof -
  from assms obtain hum temp wind gust prob rain where
    v: "a = JNum hum" "b = JNum temp" "c = JNum wind" "d = JNum gust" "p = JNum prob"
       "rn = JNum rain"
    by (cases a; cases b; cases c; cases d; cases p; cases rn) (simp_all add: risk_score_null)
  have "\<exists>uv. risk_score tf prev a b c d H (JNum uv) p rn R = Some scored"
  proof (cases u)
    case JNull
    with assms have "\<not> (8 \<le> H \<and> H \<le> 16)"
      using risk_score_null(7) [of H tf prev a b c d p rn R] by auto
    from risk_score_uv_unused [OF this] assms show ?thesis by metis
  next
    case (JNum uv)
    with assms show ?thesis by blast
  qed
  then obtain uv where "risk_score tf prev a b c d H (JNum uv) p rn R = Some scored" by blast
  with risk_score_numeric_ext [of tf prev hum temp wind gust H uv prob rain R] v
  obtain n ext where "scored = (n, R @ ext)" by auto
  then show ?thesis by simp
qed

lemma rules_keep_reasons:
  "set (snd sr) \<subseteq> set (snd (rule_bmkg b sr))"
  "set (snd sr) \<subseteq> set (snd (rule_rain x sr))"
  "set (snd sr) \<subseteq> set (snd (rule_acc x y sr))"
  "set (snd sr) \<subseteq> set (snd (rule_wind x sr))"
  "set (snd sr) \<subseteq> set (snd (rule_gust x sr))"
  by (cases sr; auto)+

lemma resolve_status_keeps_reasons:
  "set R \<subseteq> set (snd (resolve_status score b rain a3 a6 wind gust R))"
proof -
  let ?s0 = "(initial_status score, R)"
  let ?s1 = "rule_bmkg b ?s0"
  let ?s2 = "rule_rain rain ?s1"
  let ?s3 = "rule_acc a3 a6 ?s2"
  let ?s4 = "rule_wind wind ?s3"
  have "set R \<subseteq> set (snd ?s1)" using rules_keep_reasons(1) [of ?s0 b] by simp
  also have "\<dots> \<subseteq> set (snd ?s2)" by (rule rules_keep_reasons)
  also have "\<dots> \<subseteq> set (snd ?s3)" by (rule rules_keep_reasons)
  also have "\<dots> \<subseteq> set (snd ?s4)" by (rule rules_keep_reasons)
  also have "\<dots> \<subseteq> set (snd (rule_gust gust ?s4))" by (rule rules_keep_reasons)
  finally show ?thesis unfolding resolve_status_def .
qed

lemma process_hour_rain_token:
  assumes "process_hour tf ps L D TIME idx st = Some (r, st')"
  shows "set (snd (record_rain_cat (loc_name L) TIME (h_rain_cat r) st)) \<subseteq> set (h_REASONS r)"
proof -
  let ?R0 = "sky_token (h_SKY_LABEL r) # snd (record_rain_cat (loc_name L) TIME (h_rain_cat r) st)"
  from process_hour_locals [OF assms] obtain rain wind gust prob :: real and scored where
    rs: "risk_score tf
         (lookup_prev_temp_for (loc_name L) (loc_latlon L) (PREV_TEMP st))
         (at_or_zero (hum_arr D) idx) (at_or_zero (temp_arr D) idx) (at_or_zero (wind_arr D) idx)
         (at_or_zero (gust_arr D) idx) (hour_of TIME) (at_or_zero (uv_arr D) idx)
         (at_or_zero (pop_arr D) idx) (at_or_zero (prec_arr D) idx) ?R0 = Some scored" and
    re: "h_REASONS r =
        (if prob \<ge> 70 \<and> wind \<ge> 10
            \<and> ''prob70_wind10'' \<notin> set (snd (resolve_status (fst scored) (loc_bmk_hit L) rain
                 (acc3 (length (times_jq D)) (prec_arr D) idx)
                 (acc6 (length (times_jq D)) (prec_arr D) idx) wind gust (snd scored)))
         then snd (resolve_status (fst scored) (loc_bmk_hit L) rain
                 (acc3 (length (times_jq D)) (prec_arr D) idx)
                 (acc6 (length (times_jq D)) (prec_arr D) idx) wind gust (snd scored))
              @ [''prob70_wind10'']
         else snd (resolve_status (fst scored) (loc_bmk_hit L) rain
                 (acc3 (length (times_jq D)) (prec_arr D) idx)
                 (acc6 (length (times_jq D)) (prec_arr D) idx) wind gust (snd scored)))"
    by blast
  have "set ?R0 \<subseteq> set (snd scored)" by (rule risk_score_keeps_reasons [OF rs])
  also have "\<dots> \<subseteq> set (snd (resolve_status (fst scored) (loc_bmk_hit L) rain
                 (acc3 (length (times_jq D)) (prec_arr D) idx)
                 (acc6 (length (times_jq D)) (prec_arr D) idx) wind gust (snd scored)))"
    by (rule resolve_status_keeps_reasons)
  also have "\<dots> \<subseteq> set (h_REASONS r)" unfolding re by auto
  finally show ?thesis by auto
qed

lemma process_hour_rain_fields:
  assumes "process_hour tf ps L D TIME idx st = Some (r, st')"
  shows "AGG_RAIN_GERIMIS st' = AGG_RAIN_GERIMIS (fst (record_rain_cat (loc_name L) TIME (h_rain_cat r) st))"
    and "AGG_RAIN_RINGAN st' = AGG_RAIN_RINGAN (fst (record_rain_cat (loc_name L) TIME (h_rain_cat r) st))"
    and "AGG_RAIN_SEDANG st' = AGG_RAIN_SEDANG (fst (record_rain_cat (loc_name L) TIME (h_rain_cat r) st))"
    and "AGG_RAIN_DERAS st' = AGG_RAIN_DERAS (fst (record_rain_cat (loc_name L) TIME (h_rain_cat r) st))"
    and "PERKOTA_RAIN_GERIMIS st' = PERKOTA_RAIN_GERIMIS (fst (record_rain_cat (loc_name L) TIME (h_rain_cat r) st))"
    and "PERKOTA_RAIN_RINGAN st' = PERKOTA_RAIN_RINGAN (fst (record_rain_cat (loc_name L) TIME (h_rain_cat r) st))"
    and "PERKOTA_RAIN_SEDANG st' = PERKOTA_RAIN_SEDANG (fst (record_rain_cat (loc_name L) TIME (h_rain_cat r) st))"
    and "PERKOTA_RAIN_DERAS st' = PERKOTA_RAIN_DERAS (fst (record_rain_cat (loc_name L) TIME (h_rain_cat r) st))"
  by (subst process_hour_state [OF assms],
      simp add: count_status_other_fields flag_dev_other_fields)+

lemma process_hour_rain_recorded:
  assumes "process_hour tf ps L D TIME idx st = Some (r, st')"
  shows "rain_recorded (h_rain_cat r) (loc_name L) TIME st st' (h_REASONS r)"
  using process_hour_rain_token [OF assms]
  unfolding rain_recorded_def process_hour_rain_fields [OF assms]
  by (cases "h_rain_cat r") (simp_all add: record_rain_cat_def)


lemma acc_example:
  "acc3 2 [JNum 0, JNum (15 / 10)] 0 = 15 / 10" "acc6 2 [JNum 0, JNum (15 / 10)] 0 = 15 / 10"
  by (simp_all add: acc3_def acc6_def window_floats_def float_at_def upt_to_6)

text \<open>
  C10: in a processed hour the category is that of the current-hour rain when it exceeds
  0.0001 mm, else of the 3-hour accumulation when that exceeds 0.0001 mm, else of the
  6-hour accumulation. The hour is added to the count and the list of that category, and
  the category's token is among the reasons; for NONE nothing is added. An hour without
  rain whose next hour has 1.5 mm is counted as RINGAN and carries the token.
\<close>

theorem rain_category_from_accumulation:
  "(process_hour tf ps L D TIME idx st = Some (r, st') \<longrightarrow>
      (\<exists>rain. py_float (at_or_zero (prec_arr D) idx) = Some rain
         \<and> h_rain_cat r = classify_rain_mm (JNum
              (if rain > 1 / 10000 then rain
               else if acc3 (length (times_jq D)) (prec_arr D) idx > 1 / 10000
                    then acc3 (length (times_jq D)) (prec_arr D) idx
               else acc6 (length (times_jq D)) (prec_arr D) idx)))
      \<and> rain_recorded (h_rain_cat r) (loc_name L) TIME st st' (h_REASONS r))
   \<and> (\<exists>r st'.
        process_hour tf ps L
          \<lparr>times_jq = [10, 11], temp_arr = [], pop_arr = [], prec_arr = [JNum 0, JNum (15 / 10)],
           hum_arr = [], wind_arr = [], gust_arr = [], uv_arr = []\<rparr>
          10 0 st = Some (r, st')
        \<and> h_rain_cat r = RINGAN
        \<and> AGG_RAIN_RINGAN st' 10 = AGG_RAIN_RINGAN st 10 + 1
        \<and> PERKOTA_RAIN_RINGAN st' (loc_name L) = PERKOTA_RAIN_RINGAN st (loc_name L) @ [10]
        \<and> ''rain_ringan'' \<in> set (h_REASONS r))"
proof -
  have general: "(\<exists>rain. py_float (at_or_zero (prec_arr D) idx) = Some rain
         \<and> h_rain_cat r = classify_rain_mm (JNum
              (if rain > 1 / 10000 then rain
               else if acc3 (length (times_jq D)) (prec_arr D) idx > 1 / 10000
                    then acc3 (length (times_jq D)) (prec_arr D) idx
               else acc6 (length (times_jq D)) (prec_arr D) idx)))
      \<and> rain_recorded (h_rain_cat r) (loc_name L) TIME st st' (h_REASONS r)"
    if h: "process_hour tf ps L D TIME idx st = Some (r, st')" for D TIME idx r st'
  proof -
    from process_hour_locals [OF h] obtain rain where
      "py_float (at_or_zero (prec_arr D) idx) = Some rain"
      "h_rain_cat r = classify_rain_mm (JNum (rain_ref_for_cat rain
          (acc3 (length (times_jq D)) (prec_arr D) idx)
          (acc6 (length (times_jq D)) (prec_arr D) idx)))"
      by blast
    then show ?thesis
      using process_hour_rain_recorded [OF h] unfolding rain_ref_for_cat_def by blast
  qed
  let ?D = "\<lparr>times_jq = [10, 11], temp_arr = [], pop_arr = [], prec_arr = [JNum 0, JNum (15 / 10)],
           hum_arr = [], wind_arr = [], gust_arr = [], uv_arr = []\<rparr>"
  have vals: "at_or_zero (temp_arr ?D) 0 = JNum 0" "at_or_zero (pop_arr ?D) 0 = JNum 0"
    "at_or_zero (prec_arr ?D) 0 = JNum 0" "at_or_zero (hum_arr ?D) 0 = JNum 0"
    "at_or_zero (wind_arr ?D) 0 = JNum 0" "at_or_zero (gust_arr ?D) 0 = JNum 0"
    "at_or_zero (uv_arr ?D) 0 = JNum 0"
    by (simp_all add: at_or_zero_def)
  obtain r st' where h: "process_hour tf ps L ?D 10 0 st = Some (r, st')"
    using process_hour_total [OF vals] by blast
  have len: "length (times_jq ?D) = 2" "prec_arr ?D = [JNum 0, JNum (15 / 10)]" by simp_all
  from general [OF h] have cat: "h_rain_cat r = RINGAN"
    unfolding len acc_example
    by (auto simp: classify_rain_mm_def float_or_zero_def at_or_zero_def Let_def)
  from general [OF h] have "rain_recorded RINGAN (loc_name L) 10 st st' (h_REASONS r)"
    unfolding cat by blast
  then have "AGG_RAIN_RINGAN st' 10 = AGG_RAIN_RINGAN st 10 + 1
        \<and> PERKOTA_RAIN_RINGAN st' (loc_name L) = PERKOTA_RAIN_RINGAN st (loc_name L) @ [10]
        \<and> ''rain_ringan'' \<in> set (h_REASONS r)"
    by (simp add: rain_recorded_def)
  with h cat general show ?thesis by blast
qed

theorem rain_category_from_accumulation_witness:
  "\<exists>r st'.
     process_hour (\<lambda>s. None) (\<lambda>v. [])
       \<lparr>loc_name = ''Depok'', loc_latlon = ''-6.4025,106.7941'', loc_DATA = None, loc_ens = [],
        loc_bmk_hit = False\<rparr>
       \<lparr>times_jq = [10, 11, 12, 13, 14, 15], temp_arr = [], pop_arr = [],
        prec_arr = [JNum 0, JNum 0, JNum 0, JNum 0, JNum 0, JNum 9],
        hum_arr = [], wind_arr = [], gust_arr = [], uv_arr = []\<rparr>
       10 0 (initial_state []) = Some (r, st')
     \<and> h_rain_cat r = DERAS
     \<and> AGG_RAIN_DERAS st' 10 = 1 \<and> PERKOTA_RAIN_DERAS st' ''Depok'' = [10]
     \<and> AGG_RAIN_RINGAN st' 10 = 0
     \<and> ''rain_keras'' \<in> set (h_REASONS r)"
proof -
  let ?L = "\<lparr>loc_name = ''Depok'', loc_latlon = ''-6.4025,106.7941'', loc_DATA = None,
        loc_ens = [], loc_bmk_hit = False\<rparr>"
  let ?D = "\<lparr>times_jq = [10, 11, 12, 13, 14, 15], temp_arr = [], pop_arr = [],
        prec_arr = [JNum 0, JNum 0, JNum 0, JNum 0, JNum 0, JNum 9],
        hum_arr = [], wind_arr = [], gust_arr = [], uv_arr = []\<rparr>"
  have vals: "at_or_zero (temp_arr ?D) 0 = JNum 0" "at_or_zero (pop_arr ?D) 0 = JNum 0"
    "at_or_zero (prec_arr ?D) 0 = JNum 0" "at_or_zero (hum_arr ?D) 0 = JNum 0"
    "at_or_zero (wind_arr ?D) 0 = JNum 0" "at_or_zero (gust_arr ?D) 0 = JNum 0"
    "at_or_zero (uv_arr ?D) 0 = JNum 0"
    by (simp_all add: at_or_zero_def)
  obtain r st' where
    h: "process_hour (\<lambda>s. None) (\<lambda>v. []) ?L ?D 10 0 (initial_state []) = Some (r, st')"
    using process_hour_total [OF vals] by blast
  have accs: "acc3 (length (times_jq ?D)) (prec_arr ?D) 0 = 0"
    "acc6 (length (times_jq ?D)) (prec_arr ?D) 0 = 9"
    by (simp_all add: acc3_def acc6_def window_floats_def float_at_def upt_to_6)
  note t = rain_category_from_accumulation [of "\<lambda>s. None" "\<lambda>v. []" ?L ?D 10 0
      "initial_state []" r st']
  from t h have cat: "h_rain_cat r = DERAS"
    unfolding accs
    by (auto simp: classify_rain_mm_def float_or_zero_def at_or_zero_def Let_def)
  from t h have "rain_recorded DERAS (loc_name ?L) 10 (initial_state []) st' (h_REASONS r)"
    unfolding cat by blast
  then have "AGG_RAIN_DERAS st' 10 = 1 \<and> PERKOTA_RAIN_DERAS st' ''Depok'' = [10]
     \<and> AGG_RAIN_RINGAN st' 10 = 0 \<and> ''rain_keras'' \<in> set (h_REASONS r)"
    by (simp add: rain_recorded_def initial_state_def)
  with h cat show ?thesis by blast
qed

section \<open>Cross-location windows\<close>

lemma threshold_is_ceiling:
  "py_int (real n * (8 / 10) + 999 / 1000) = \<lceil>real n * (8 / 10)\<rceil>"
proof -
  define q k where "q = n div 5" and "k = n mod 5"
  have n: "n = 5 * q + k" and k: "k < 5" by (simp_all add: q_def k_def)
  have nonneg: "real n * (8 / 10) + 999 / 1000 \<ge> 0" by simp
  consider "k = 0" | "k = 1" | "k = 2" | "k = 3" | "k = 4" using k by linarith
  then have "\<lfloor>real n * (8 / 10) + 999 / 1000\<rfloor> = \<lceil>real n * (8 / 10)\<rceil>"
  proof cases
    case 1
    then have "\<lfloor>real n * (8 / 10) + 999 / 1000\<rfloor> = 4 * int q"
      and "\<lceil>real n * (8 / 10)\<rceil> = 4 * int q"
      unfolding n by (simp_all add: floor_eq_iff ceiling_eq_iff add_divide_distrib)
    then show ?thesis by simp
  next
    case 2
    then have "\<lfloor>real n * (8 / 10) + 999 / 1000\<rfloor> = 4 * int q + 1"
      and "\<lceil>real n * (8 / 10)\<rceil> = 4 * int q + 1"
      unfolding n by (simp_all add: floor_eq_iff ceiling_eq_iff add_divide_distrib)
    then show ?thesis by simp
  next
    case 3
    then have "\<lfloor>real n * (8 / 10) + 999 / 1000\<rfloor> = 4 * int q + 2"
      and "\<lceil>real n * (8 / 10)\<rceil> = 4 * int q + 2"
      unfolding n by (simp_all add: floor_eq_iff ceiling_eq_iff add_divide_distrib)
    then show ?thesis by simp
  next
    case 4
    then have "\<lfloor>real n * (8 / 10) + 999 / 1000\<rfloor> = 4 * int q + 3"
      and "\<lceil>real n * (8 / 10)\<rceil> = 4 * int q + 3"
      unfolding n by (simp_all add: floor_eq_iff ceiling_eq_iff add_divide_distrib)
    then show ?thesis by simp
  next
    case 5
    then have "\<lfloor>real n * (8 / 10) + 999 / 1000\<rfloor> = 4 * int q + 4"
      and "\<lceil>real n * (8 / 10)\<rceil> = 4 * int q + 4"
      unfolding n by (simp_all add: floor_eq_iff ceiling_eq_iff add_divide_distrib)
    then show ?thesis by simp
  qed
  with nonneg show ?thesis by (simp add: py_int_def)
qed

text \<open>
  C7: when at least one location was processed, a slot of the list is among the best safe
  hours exactly when its Aman count is at least the ceiling of 0.8 times the number of
  processed locations, and among the risky hours exactly when its Rawan count is greater
  than 1. With 5 processed locations a slot with 4 Aman is taken and one with 3 is not.
\<close>

theorem safe_and_risky_windows:
  assumes "processed_count st > 0"
  shows "(t \<in> set (best_aman_times TIMES st) \<longleftrightarrow>
           t \<in> set TIMES \<and> int (AGG_AMAN st t) \<ge> \<lceil>real (processed_count st) * (8 / 10)\<rceil>)
    \<and> (t \<in> set (any_rawan_times TIMES st) \<longleftrightarrow> t \<in> set TIMES \<and> AGG_RAWAN st t > 1)
    \<and> \<lceil>real (5::nat) * (8 / 10)\<rceil> = (4::int)
    \<and> best_aman_times [t] (st\<lparr>processed_count := 5, AGG_AMAN := (\<lambda>x. 4)\<rparr>) = [t]
    \<and> best_aman_times [t] (st\<lparr>processed_count := 5, AGG_AMAN := (\<lambda>x. 3)\<rparr>) = []"
proof -
  have c: "\<lceil>real (5::nat) * (8 / 10)\<rceil> = (4::int)" by (simp add: ceiling_eq_iff)
  have a: "best_aman_times [t] (st\<lparr>processed_count := 5, AGG_AMAN := (\<lambda>x. 4)\<rparr>) = [t]"
    by (simp add: best_aman_times_def py_int_def)
  have b: "best_aman_times [t] (st\<lparr>processed_count := 5, AGG_AMAN := (\<lambda>x. 3)\<rparr>) = []"
    by (simp add: best_aman_times_def py_int_def)
  have safe: "t \<in> set (best_aman_times TIMES st) \<longleftrightarrow>
           t \<in> set TIMES \<and> int (AGG_AMAN st t) \<ge> \<lceil>real (processed_count st) * (8 / 10)\<rceil>"
    unfolding best_aman_times_def threshold_is_ceiling using assms by auto
  have risky: "t \<in> set (any_rawan_times TIMES st) \<longleftrightarrow> t \<in> set TIMES \<and> AGG_RAWAN st t > 1"
    unfolding any_rawan_times_def by auto
  from safe risky a b c show ?thesis by blast
qed

theorem safe_and_risky_windows_witness:
  "10 \<in> set (best_aman_times [10, 11, 12]
     ((initial_state [])\<lparr>processed_count := 5,
        AGG_AMAN := (\<lambda>x. if x = 10 then 4 else 3)\<rparr>))
   \<and> 11 \<notin> set (best_aman_times [10, 11, 12]
     ((initial_state [])\<lparr>processed_count := 5,
        AGG_AMAN := (\<lambda>x. if x = 10 then 4 else 3)\<rparr>))
   \<and> 11 \<in> set (any_rawan_times [10, 11, 12]
     ((initial_state [])\<lparr>processed_count := 5,
        AGG_RAWAN := (\<lambda>x. if x = 11 then 2 else 1)\<rparr>))
   \<and> 12 \<notin> set (any_rawan_times [10, 11, 12]
     ((initial_state [])\<lparr>processed_count := 5,
        AGG_RAWAN := (\<lambda>x. if x = 11 then 2 else 1)\<rparr>))"
proof -
  let ?s = "(initial_state [])\<lparr>processed_count := 5, AGG_AMAN := (\<lambda>x. if x = 10 then 4 else 3)\<rparr>"
  let ?r = "(initial_state [])\<lparr>processed_count := 5, AGG_RAWAN := (\<lambda>x. if x = 11 then 2 else 1)\<rparr>"
  have p: "processed_count ?s > 0" "processed_count ?r > 0" by simp_all
  have c: "\<lceil>real (processed_count ?s) * (8 / 10)\<rceil> = (4::int)"
    using safe_and_risky_windows [OF p(1)] by simp
  have a: "10 \<in> set (best_aman_times [10, 11, 12] ?s)"
    unfolding safe_and_risky_windows [OF p(1), THEN conjunct1] c by simp
  have b: "11 \<notin> set (best_aman_times [10, 11, 12] ?s)"
    unfolding safe_and_risky_windows [OF p(1), THEN conjunct1] c by simp
  have d: "11 \<in> set (any_rawan_times [10, 11, 12] ?r)"
    unfolding safe_and_risky_windows [OF p(2), THEN conjunct2, THEN conjunct1] by simp
  have e: "12 \<notin> set (any_rawan_times [10, 11, 12] ?r)"
    unfolding safe_and_risky_windows [OF p(2), THEN conjunct2, THEN conjunct1] by simp
  from a b d e show ?thesis by blast
qed

section \<open>Status counts of a run\<close>

lemma index_of_None_iff: "index_of xs x = None \<longleftrightarrow> x \<notin> set xs"
  by (induction xs) auto

lemma count_status_total:
  "status_total (count_status T S st) t = status_total st t + (if t = T then 1 else 0)"
  by (cases S) (simp_all add: status_total_def count_status_def)

lemma status_total_cong:
  assumes "AGG_AMAN st' = AGG_AMAN st" "AGG_WASP st' = AGG_WASP st" "AGG_RAWAN st' = AGG_RAWAN st"
  shows "status_total st' t = status_total st t"
  using assms by (simp add: status_total_def)

lemma process_hour_status_total:
  assumes "process_hour tf ps L D TIME idx st = Some (r, st')"
  shows "status_total st' t = status_total st t + (if t = TIME then 1 else 0)"
proof -
  let ?st2 = "flag_dev (loc_name L) TIME (h_dev_ens_3hr r)
        (flag_dev (loc_name L) TIME (h_dev_mm r)
          (fst (record_rain_cat (loc_name L) TIME (h_rain_cat r) st)))"
  have "status_total st' t = status_total (count_status TIME (h_STATUS r) ?st2) t"
    by (subst process_hour_state [OF assms]) (simp add: status_total_def)
  also have "\<dots> = status_total ?st2 t + (if t = TIME then 1 else 0)"
    by (rule count_status_total)
  also have "status_total ?st2 t = status_total st t"
    by (rule status_total_cong)
      (simp_all add: flag_dev_other_fields record_rain_cat_other_fields)
  finally show ?thesis .
qed

lemma process_hour_processed_count:
  assumes "process_hour tf ps L D TIME idx st = Some (r, st')"
  shows "processed_count st' = processed_count st"
  by (subst process_hour_state [OF assms])
    (simp add: count_status_other_fields flag_dev_other_fields record_rain_cat_other_fields)

lemma hours_loop_status_total:
  assumes "hours_loop tf ps L D ts st = Some st'"
  shows "status_total st' t =
           status_total st t + length (filter (\<lambda>x. x = t \<and> x \<in> set (times_jq D)) ts)
         \<and> processed_count st' = processed_count st"
  using assms
proof (induction ts arbitrary: st)
  case Nil
  then show ?case by simp
next
  case (Cons TIME ts)
  show ?case
  proof (cases "index_of (times_jq D) TIME")
    case None
    then have "TIME \<notin> set (times_jq D)" by (simp add: index_of_None_iff)
    moreover from Cons.prems None have "hours_loop tf ps L D ts st = Some st'" by simp
    ultimately show ?thesis using Cons.IH by auto
  next
    case (Some idx)
    then have mem: "TIME \<in> set (times_jq D)"
      using index_of_None_iff [of "times_jq D" TIME] by auto
    from Cons.prems Some obtain r st1 where
      h: "process_hour tf ps L D TIME idx st = Some (r, st1)" and
      rest: "hours_loop tf ps L D ts st1 = Some st'"
      by (auto split: Option.bind_splits)
    from Cons.IH [OF rest] process_hour_status_total [OF h, of t]
      process_hour_processed_count [OF h] mem
    show ?thesis by auto
  qed
qed

lemma begin_location_status_total:
  "status_total (begin_location K st) t = status_total st t"
  by (simp add: status_total_def begin_location_def)

lemma locations_loop_status_total:
  assumes "locations_loop tf ps ts Ls st = Some st'"
  shows "status_total st' t =
           status_total st t
           + (\<Sum>L\<leftarrow>Ls. case loc_DATA L of None \<Rightarrow> 0
                | Some D \<Rightarrow> length (filter (\<lambda>x. x = t \<and> x \<in> set (times_jq D)) ts))"
  using assms
proof (induction Ls arbitrary: st)
  case Nil
  then show ?case by simp
next
  case (Cons L Ls)
  show ?case
  proof (cases "loc_DATA L")
    case None
    with Cons.prems have "locations_loop tf ps ts Ls st = Some st'" by simp
    from Cons.IH [OF this] None show ?thesis by simp
  next
    case (Some D)
    with Cons.prems obtain st1 where
      h: "hours_loop tf ps L D ts (begin_location (loc_name L) st) = Some st1" and
      rest: "locations_loop tf ps ts Ls st1 = Some st'"
      by (auto split: Option.bind_splits)
    from hours_loop_status_total [OF h, of t] Cons.IH [OF rest] Some
    show ?thesis by (simp add: begin_location_status_total)
  qed
qed

lemma build_times_list_distinct: "distinct (build_times_list now_dt)"
  by (simp add: build_times_list_def distinct_map inj_on_def)

lemma build_times_list_length: "length (build_times_list now_dt) = 24"
  by (simp add: build_times_list_def)

lemma build_times_list_set: "set (build_times_list now_dt) = {now_dt ..< now_dt + 24}"
proof -
  have "(\<lambda>i. now_dt + i) ` {0..<24} = {now_dt ..< now_dt + 24}"
    by (auto simp: image_iff intro: le_Suc_ex)
  then show ?thesis by (simp add: build_times_list_def)
qed

lemma count_in_distinct:
  assumes "distinct ts" "t \<in> set ts"
  shows "length (filter (\<lambda>x. x = t \<and> P x) ts) = (if P t then 1 else 0)"
  using assms by (induction ts) (auto simp: filter_empty_conv)

lemma processed_for_slot_sum:
  assumes "distinct ts" "t \<in> set ts"
  shows "(\<Sum>L\<leftarrow>Ls. case loc_DATA L of None \<Rightarrow> 0
                | Some D \<Rightarrow> length (filter (\<lambda>x. x = t \<and> x \<in> set (times_jq D)) ts))
         = processed_for_slot t Ls"
proof -
  have eq: "length (filter (\<lambda>x. x = t \<and> x \<in> set (times_jq D)) ts)
              = (if t \<in> set (times_jq D) then 1 else 0)" for D :: forecast
    by (rule count_in_distinct [OF assms])
  show ?thesis
    unfolding eq processed_for_slot_def
    by (induction Ls) (simp_all split: option.splits)
qed

lemma at_or_zero_numeric:
  assumes "list_all is_num arr"
  shows "\<exists>x. at_or_zero arr idx = JNum x"
proof (cases "idx < length arr")
  case True
  with assms have "is_num (arr ! idx)" by (simp add: list_all_length)
  then show ?thesis using True by (cases "arr ! idx") (simp_all add: at_or_zero_def is_num_def)
next
  case False
  then show ?thesis by (simp add: at_or_zero_def)
qed

lemma process_hour_numeric:
  assumes "numeric_forecast D"
  shows "\<exists>r st'. process_hour tf ps L D TIME idx st = Some (r, st')"
proof -
  from assms obtain temp prob rain hum wind gust uv where
    "at_or_zero (temp_arr D) idx = JNum temp" "at_or_zero (pop_arr D) idx = JNum prob"
    "at_or_zero (prec_arr D) idx = JNum rain" "at_or_zero (hum_arr D) idx = JNum hum"
    "at_or_zero (wind_arr D) idx = JNum wind" "at_or_zero (gust_arr D) idx = JNum gust"
    "at_or_zero (uv_arr D) idx = JNum uv"
    unfolding numeric_forecast_def using at_or_zero_numeric by metis
  then show ?thesis by (rule process_hour_total)
qed

lemma hours_loop_numeric:
  assumes "numeric_forecast D"
  shows "\<exists>st'. hours_loop tf ps L D ts st = Some st'"
proof (induction ts arbitrary: st)
  case Nil
  show ?case by simp
next
  case (Cons TIME ts)
  show ?case
  proof (cases "index_of (times_jq D) TIME")
    case None
    then show ?thesis using Cons.IH by simp
  next
    case (Some idx)
    from process_hour_numeric [OF assms] obtain r st1 where
      "process_hour tf ps L D TIME idx st = Some (r, st1)" by blast
    then show ?thesis using Some Cons.IH [of st1] by simp
  qed
qed

lemma locations_loop_numeric:
  assumes "list_all numeric_location Ls"
  shows "\<exists>st'. locations_loop tf ps ts Ls st = Some st'"
  using assms
proof (induction Ls arbitrary: st)
  case Nil
  show ?case by simp
next
  case (Cons L Ls)
  then have rest: "\<And>st. \<exists>st'. locations_loop tf ps ts Ls st = Some st'" by simp
  show ?case
  proof (cases "loc_DATA L")
    case None
    then show ?thesis using rest by simp
  next
    case (Some D)
    with Cons.prems have "numeric_forecast D" by (simp add: numeric_location_def)
    from hours_loop_numeric [OF this] obtain st1 where
      "hours_loop tf ps L D ts (begin_location (loc_name L) st) = Some st1" by blast
    then show ?thesis using Some rest [of st1] by simp
  qed
qed

text \<open>
  C8: when a run goes through all locations, at each of its 24 slots the Aman, Waspada
  and Rawan counts add up to the number of locations that were fetched and have the slot
  on their time axis. Each processed location-hour raises exactly one of the three counts
  at its slot, by one, and leaves them alone at the other slots. A run over forecasts
  whose entries are all numbers goes through all locations.
\<close>

theorem status_counts_sum_to_processed:
  "(run_once tf ps now_dt file Ls = Some st \<longrightarrow>
      (\<forall>t \<in> set (build_times_list now_dt).
         AGG_AMAN st t + AGG_WASP st t + AGG_RAWAN st t = processed_for_slot t Ls))
   \<and> length (build_times_list now_dt) = 24
   \<and> (list_all numeric_location Ls \<longrightarrow> (\<exists>st'. run_once tf ps now_dt file Ls = Some st'))
   \<and> (process_hour tf ps L D TIME idx st0 = Some (r, st1) \<longrightarrow>
        AGG_AMAN st1 TIME + AGG_WASP st1 TIME + AGG_RAWAN st1 TIME
          = AGG_AMAN st0 TIME + AGG_WASP st0 TIME + AGG_RAWAN st0 TIME + 1
        \<and> AGG_AMAN st1 TIME \<ge> AGG_AMAN st0 TIME \<and> AGG_WASP st1 TIME \<ge> AGG_WASP st0 TIME
        \<and> AGG_RAWAN st1 TIME \<ge> AGG_RAWAN st0 TIME
        \<and> (\<forall>t. t \<noteq> TIME \<longrightarrow> AGG_AMAN st1 t = AGG_AMAN st0 t \<and> AGG_WASP st1 t = AGG_WASP st0 t
               \<and> AGG_RAWAN st1 t = AGG_RAWAN st0 t))"
proof -
  have run: "AGG_AMAN st t + AGG_WASP st t + AGG_RAWAN st t = processed_for_slot t Ls"
    if h: "run_once tf ps now_dt file Ls = Some st" and t: "t \<in> set (build_times_list now_dt)" for t
  proof -
    from h have "status_total st t =
        status_total (initial_state (load_prev_temp_file file)) t
        + (\<Sum>L\<leftarrow>Ls. case loc_DATA L of None \<Rightarrow> 0
             | Some D \<Rightarrow> length (filter (\<lambda>x. x = t \<and> x \<in> set (times_jq D))
                 (build_times_list now_dt)))"
      unfolding run_once_def by (rule locations_loop_status_total)
    also have "status_total (initial_state (load_prev_temp_file file)) t = 0"
      by (simp add: status_total_def initial_state_def)
    finally show ?thesis
      unfolding processed_for_slot_sum [OF build_times_list_distinct t]
      by (simp add: status_total_def)
  qed
  have hour: "AGG_AMAN st1 TIME + AGG_WASP st1 TIME + AGG_RAWAN st1 TIME
          = AGG_AMAN st0 TIME + AGG_WASP st0 TIME + AGG_RAWAN st0 TIME + 1
        \<and> AGG_AMAN st1 TIME \<ge> AGG_AMAN st0 TIME \<and> AGG_WASP st1 TIME \<ge> AGG_WASP st0 TIME
        \<and> AGG_RAWAN st1 TIME \<ge> AGG_RAWAN st0 TIME
        \<and> (\<forall>t. t \<noteq> TIME \<longrightarrow> AGG_AMAN st1 t = AGG_AMAN st0 t \<and> AGG_WASP st1 t = AGG_WASP st0 t
               \<and> AGG_RAWAN st1 t = AGG_RAWAN st0 t)"
    if h: "process_hour tf ps L D TIME idx st0 = Some (r, st1)"
  proof -
    let ?st2 = "flag_dev (loc_name L) TIME (h_dev_ens_3hr r)
        (flag_dev (loc_name L) TIME (h_dev_mm r)
          (fst (record_rain_cat (loc_name L) TIME (h_rain_cat r) st0)))"
    have f: "AGG_AMAN ?st2 = AGG_AMAN st0" "AGG_WASP ?st2 = AGG_WASP st0"
      "AGG_RAWAN ?st2 = AGG_RAWAN st0"
      by (simp_all add: flag_dev_other_fields record_rain_cat_other_fields)
    have "AGG_AMAN st1 = AGG_AMAN (count_status TIME (h_STATUS r) ?st2)"
      "AGG_WASP st1 = AGG_WASP (count_status TIME (h_STATUS r) ?st2)"
      "AGG_RAWAN st1 = AGG_RAWAN (count_status TIME (h_STATUS r) ?st2)"
      by (subst process_hour_state [OF h], simp)+
    then show ?thesis
      by (cases "h_STATUS r") (simp_all add: count_status_def f)
  qed
  have total: "\<exists>st'. run_once tf ps now_dt file Ls = Some st'" if "list_all numeric_location Ls"
    unfolding run_once_def by (rule locations_loop_numeric [OF that])
  from run hour total build_times_list_length show ?thesis by blast
qed


theorem status_counts_sum_to_processed_witness:
  "\<exists>st.
     run_once (\<lambda>s. None) (\<lambda>v. []) 10 None
       [\<lparr>loc_name = ''Jakarta'', loc_latlon = ''-6.1754,106.8272'',
         loc_DATA = Some \<lparr>times_jq = [10, 11], temp_arr = [JNum 30, JNum 31], pop_arr = [],
            prec_arr = [], hum_arr = [], wind_arr = [JNum 5, JNum 26], gust_arr = [],
            uv_arr = []\<rparr>,
         loc_ens = [], loc_bmk_hit = False\<rparr>,
        \<lparr>loc_name = ''Bogor'', loc_latlon = ''-6.5971,106.8060'', loc_DATA = None,
         loc_ens = [], loc_bmk_hit = False\<rparr>,
        \<lparr>loc_name = ''Depok'', loc_latlon = ''-6.4025,106.7941'',
         loc_DATA = Some \<lparr>times_jq = [11], temp_arr = [], pop_arr = [],
            prec_arr = [], hum_arr = [], wind_arr = [], gust_arr = [], uv_arr = []\<rparr>,
         loc_ens = [], loc_bmk_hit = True\<rparr>] = Some st
     \<and> AGG_AMAN st 10 + AGG_WASP st 10 + AGG_RAWAN st 10 = 1
     \<and> AGG_AMAN st 11 + AGG_WASP st 11 + AGG_RAWAN st 11 = 2
     \<and> AGG_AMAN st 12 + AGG_WASP st 12 + AGG_RAWAN st 12 = 0"
proof -
  let ?Ls = "[\<lparr>loc_name = ''Jakarta'', loc_latlon = ''-6.1754,106.8272'',
         loc_DATA = Some \<lparr>times_jq = [10, 11], temp_arr = [JNum 30, JNum 31], pop_arr = [],
            prec_arr = [], hum_arr = [], wind_arr = [JNum 5, JNum 26], gust_arr = [],
            uv_arr = []\<rparr>,
         loc_ens = [], loc_bmk_hit = False\<rparr>,
        \<lparr>loc_name = ''Bogor'', loc_latlon = ''-6.5971,106.8060'', loc_DATA = None,
         loc_ens = [], loc_bmk_hit = False\<rparr>,
        \<lparr>loc_name = ''Depok'', loc_latlon = ''-6.4025,106.7941'',
         loc_DATA = Some \<lparr>times_jq = [11], temp_arr = [], pop_arr = [],
            prec_arr = [], hum_arr = [], wind_arr = [], gust_arr = [], uv_arr = []\<rparr>,
         loc_ens = [], loc_bmk_hit = True\<rparr>]"
  note t = status_counts_sum_to_processed [of "\<lambda>s. None" "\<lambda>v. []" 10 None ?Ls]
  have num: "list_all numeric_location ?Ls"
    by (simp add: numeric_location_def numeric_forecast_def is_num_def)
  with t obtain st where h: "run_once (\<lambda>s. None) (\<lambda>v. []) 10 None ?Ls = Some st" by blast
  have slots: "10 \<in> set (build_times_list 10)" "11 \<in> set (build_times_list 10)"
    "12 \<in> set (build_times_list 10)"
    by (simp_all add: build_times_list_set)
  have counts: "processed_for_slot 10 ?Ls = 1" "processed_for_slot 11 ?Ls = 2"
    "processed_for_slot 12 ?Ls = 0"
    by (simp_all add: processed_for_slot_def)
  from t [of st] h slots
  have "AGG_AMAN st 10 + AGG_WASP st 10 + AGG_RAWAN st 10 = processed_for_slot 10 ?Ls"
    "AGG_AMAN st 11 + AGG_WASP st 11 + AGG_RAWAN st 11 = processed_for_slot 11 ?Ls"
    "AGG_AMAN st 12 + AGG_WASP st 12 + AGG_RAWAN st 12 = processed_for_slot 12 ?Ls"
    by blast+
  with h show ?thesis unfolding counts by blast
qed

section \<open>Round trip of the previous-temperature store\<close>

lemma universal_newlines_no_CR: "CR \<notin> set s \<Longrightarrow> universal_newlines s = s"
  by (induction s rule: universal_newlines.induct) auto

lemma split_lines_line:
  "LF \<notin> set xs \<Longrightarrow> split_lines (xs @ LF # rest) = (xs @ [LF]) # split_lines rest"
  by (induction xs) auto

lemma py_strip_line:
  assumes "trimmed s"
  shows "py_strip (s @ [LF]) = s"
proof -
  from assms obtain c cs where s: "s = c # cs" and c: "\<not> is_space c"
    by (cases s) (auto simp: trimmed_def)
  from assms obtain d ds where r: "rev s = d # ds" and d: "\<not> is_space d"
    by (cases "rev s") (auto simp: trimmed_def last_rev [symmetric] hd_rev)
  have lf: "is_space LF" by (simp add: is_space_def)
  have "dropWhile is_space (s @ [LF]) = s @ [LF]" using s c by simp
  moreover have "dropWhile is_space (rev (s @ [LF])) = rev s" using r d lf by simp
  ultimately show ?thesis by (simp add: py_strip_def)
qed

lemma py_strip_trimmed:
  assumes "trimmed s"
  shows "py_strip s = s"
proof -
  from assms obtain c cs where s: "s = c # cs" and c: "\<not> is_space c"
    by (cases s) (auto simp: trimmed_def)
  from assms obtain d ds where r: "rev s = d # ds" and d: "\<not> is_space d"
    by (cases "rev s") (auto simp: trimmed_def last_rev [symmetric] hd_rev)
  have "dropWhile is_space s = s" using s c by simp
  moreover have "dropWhile is_space (rev s) = rev s" using r d by simp
  ultimately show ?thesis by (simp add: py_strip_def)
qed

lemma trimmed_entry_line:
  assumes "trimmed k" "trimmed v"
  shows "trimmed (k @ ''|'' @ v)"
  using assms by (cases k) (auto simp: trimmed_def)

lemma takeWhile_until_sep: "sep \<notin> set k \<Longrightarrow> takeWhile (\<lambda>c. c \<noteq> sep) (k @ sep # v) = k"
  by (induction k) auto

lemma dropWhile_until_sep: "sep \<notin> set k \<Longrightarrow> dropWhile (\<lambda>c. c \<noteq> sep) (k @ sep # v) = sep # v"
  by (induction k) auto

lemma split_once_entry:
  assumes "CHR ''|'' \<notin> set k"
  shows "split_once CHR ''|'' (k @ ''|'' @ v) = [k, v]"
  using assms by (simp add: split_once_def takeWhile_until_sep dropWhile_until_sep)

lemma load_line_entry:
  assumes "storable_entry (k, v)"
  shows "load_line (k @ ''|'' @ v @ [LF]) data = AList.update k v data"
proof -
  from assms have k: "trimmed k" and v: "trimmed v" and bar: "CHR ''|'' \<notin> set k"
    by (simp_all add: storable_entry_def)
  have strip: "py_strip (k @ ''|'' @ v @ [LF]) = k @ ''|'' @ v"
    using py_strip_line [OF trimmed_entry_line [OF k v]] by simp
  have ne: "k @ ''|'' @ v \<noteq> []" by simp
  have kv: "k \<noteq> []" "v \<noteq> []" using k v by (simp_all add: trimmed_def)
  show ?thesis
    unfolding load_line_def strip Let_def split_once_entry [OF bar]
    using ne kv by (simp add: py_strip_trimmed [OF k] py_strip_trimmed [OF v])
qed

lemma split_lines_saved:
  assumes "list_all storable_entry store"
  shows "split_lines (concat (map (\<lambda>(k, v). k @ ''|'' @ v @ [LF]) store))
           = map (\<lambda>(k, v). k @ ''|'' @ v @ [LF]) store"
  using assms
proof (induction store)
  case Nil
  show ?case by simp
next
  case (Cons kv store)
  obtain k v where kv: "kv = (k, v)" by (cases kv)
  from Cons.prems kv have "LF \<notin> set (k @ ''|'' @ v)"
    by (simp add: storable_entry_def no_line_break_def)
  from split_lines_line [OF this] Cons show ?case by (simp add: kv)
qed

lemma saved_no_CR:
  assumes "list_all storable_entry store"
  shows "CR \<notin> set (concat (map (\<lambda>(k, v). k @ ''|'' @ v @ [LF]) store))"
  using assms
  by (induction store) (auto simp: storable_entry_def no_line_break_def)

lemma fold_load_line_saved:
  assumes "list_all storable_entry store"
  shows "fold load_line (map (\<lambda>(k, v). k @ ''|'' @ v @ [LF]) store) data
           = fold (\<lambda>(k, v). AList.update k v) store data"
  using assms
proof (induction store arbitrary: data)
  case Nil
  show ?case by simp
next
  case (Cons kv store)
  obtain k v where kv: "kv = (k, v)" by (cases kv)
  from Cons.prems kv have "storable_entry (k, v)" by simp
  from load_line_entry [OF this] Cons show ?case by (simp add: kv)
qed

lemma update_fresh_key:
  "k \<notin> fst ` set al \<Longrightarrow> AList.update k v al = al @ [(k, v)]"
  by (induction al) auto

lemma fold_update_distinct:
  assumes "distinct (map fst (acc @ store))"
  shows "fold (\<lambda>(k, v). AList.update k v) store acc = acc @ store"
  using assms
proof (induction store arbitrary: acc)
  case Nil
  show ?case by simp
next
  case (Cons kv store)
  obtain k v where kv: "kv = (k, v)" by (cases kv)
  from Cons.prems kv have fresh: "k \<notin> fst ` set acc" by auto
  from Cons.prems kv have "distinct (map fst ((acc @ [(k, v)]) @ store))" by simp
  from Cons.IH [OF this] show ?case by (simp add: kv update_fresh_key [OF fresh])
qed

lemma load_save_roundtrip:
  assumes "distinct (map fst store)" "list_all storable_entry store"
  shows "load_prev_temp_file (save_prev_temp_file store) = store"
  unfolding save_prev_temp_file_def load_prev_temp_file_def option.case
    universal_newlines_no_CR [OF saved_no_CR [OF assms(2)]]
    split_lines_saved [OF assms(2)] fold_load_line_saved [OF assms(2)]
  using fold_update_distinct [of "[]" store] assms(1) by simp

text \<open>
  C9, as the code has it: a store with distinct keys (a dict), whose keys and values are
  non-empty, without white space at either end and without line breaks, and whose keys
  have no \<open>|\<close>, is read back from the file it was written to as the same list of
  entries, hence as the same key-to-value map.
\<close>

theorem prev_temp_store_roundtrip:
  assumes "distinct (map fst store)" "list_all storable_entry store"
  shows "load_prev_temp_file (save_prev_temp_file store) = store
    \<and> map_of (load_prev_temp_file (save_prev_temp_file store)) = map_of store"
  using load_save_roundtrip [OF assms] by simp

theorem prev_temp_store_roundtrip_witness:
  "load_prev_temp_file (save_prev_temp_file
      [(''Jakarta'', ''30.5''), (''-6.1754,106.8272'', ''30.5''), (''Kota Bogor'', ''27|x'')])
   = [(''Jakarta'', ''30.5''), (''-6.1754,106.8272'', ''30.5''), (''Kota Bogor'', ''27|x'')]"
proof -
  let ?store = "[(''Jakarta'', ''30.5''), (''-6.1754,106.8272'', ''30.5''),
      (''Kota Bogor'', ''27|x'')]"
  have d: "distinct (map fst ?store)" by simp
  have s: "list_all storable_entry ?store"
    by (simp add: storable_entry_def trimmed_def no_line_break_def is_space_def)
  from prev_temp_store_roundtrip [OF d s] show ?thesis by blast
qed

text \<open>A value with a line break inside meets the conditions of the claim as stated: the
  key has no \<open>|\<close> and no newline, key and value are non-empty and have no white space at
  either end. The value read back is cut at the line break.\<close>

theorem prev_temp_store_roundtrip_counterexample:
  "CHR ''|'' \<notin> set ''a'' \<and> LF \<notin> set ''a'' \<and> trimmed ''a'' \<and> trimmed [CHR ''1'', LF, CHR ''2'']
   \<and> load_prev_temp_file (save_prev_temp_file [(''a'', [CHR ''1'', LF, CHR ''2''])])
       = [(''a'', ''1'')]
   \<and> map_of (load_prev_temp_file (save_prev_temp_file [(''a'', [CHR ''1'', LF, CHR ''2''])])) ''a''
       \<noteq> map_of [(''a'', [CHR ''1'', LF, CHR ''2''])] ''a''"
proof -
  have l: "load_prev_temp_file (save_prev_temp_file [(''a'', [CHR ''1'', LF, CHR ''2''])])
       = [(''a'', ''1'')]"
    by (simp add: load_prev_temp_file_def save_prev_temp_file_def load_line_def py_strip_def
        is_space_def split_once_def)
  show ?thesis unfolding l by (simp add: trimmed_def is_space_def)
qed


end
